theory Spec2Isabelle
  imports Main
begin

section \<open>Python values and exceptions\<close>

text \<open>
  A Python \<open>str\<close> is modelled as a HOL \<open>string\<close>; a character is read as the code
  point of the same number, so the model covers the code points below 256. An uncaught
  exception is a value: every function of the shell that can raise returns a sum whose
  left side is the exception.
\<close>

datatype exn =
    IndexError
  | ValueError
  | TypeError
  | FileNotFoundError
  | OSError
  | EOFError
  | SystemExit int

text \<open>\<open>xs[i]\<close> for a non-negative index: \<open>IndexError\<close> beyond the end of the list.\<close>

definition py_index :: "'a list \<Rightarrow> nat \<Rightarrow> exn + 'a" where
  "py_index xs i = (if i < length xs then Inr (xs ! i) else Inl IndexError)"

text \<open>
  \<open>str.isspace\<close> on one character: the white space of the Unicode database below
  256, which is what \<open>str.strip()\<close> and \<open>str.split()\<close> remove.
\<close>

definition py_isspace :: "char \<Rightarrow> bool" where
  "py_isspace c = (c \<in> {CHR 0x09, CHR 0x0A, CHR 0x0B, CHR 0x0C, CHR 0x0D,
                         CHR 0x1C, CHR 0x1D, CHR 0x1E, CHR 0x1F, CHR '' '', CHR 0x85, CHR 0xA0})"

definition py_strip :: "string \<Rightarrow> string" where
  "py_strip s = rev (dropWhile py_isspace (rev (dropWhile py_isspace s)))"

text \<open>\<open>s.split()\<close>: the maximal runs of characters that are not white space.\<close>

fun split_words :: "string \<Rightarrow> string \<Rightarrow> string list" where
  "split_words cur [] = (if cur = [] then [] else [cur])"
| "split_words cur (c # cs) =
     (if py_isspace c then (if cur = [] then split_words [] cs else cur # split_words [] cs)
      else split_words (cur @ [c]) cs)"

definition py_split :: "string \<Rightarrow> string list" where
  "py_split s = split_words [] s"

text \<open>\<open>s.split(sep)\<close> for a separator of one character.\<close>

fun split_at :: "char \<Rightarrow> string \<Rightarrow> string \<Rightarrow> string list" where
  "split_at sep cur [] = [cur]"
| "split_at sep cur (c # cs) =
     (if c = sep then cur # split_at sep [] cs else split_at sep (cur @ [c]) cs)"

definition py_split_sep :: "char \<Rightarrow> string \<Rightarrow> string list" where
  "py_split_sep sep s = split_at sep [] s"

text \<open>\<open>sep.join(xs)\<close>.\<close>

fun py_join :: "string \<Rightarrow> string list \<Rightarrow> string" where
  "py_join sep [] = []"
| "py_join sep [x] = x"
| "py_join sep (x # y # ys) = x @ sep @ py_join sep (y # ys)"

text \<open>
  \<open>str.isdigit\<close>: a non-empty string of digit characters. Next to the ten decimal
  digits, the superscripts two, three and one (code points 0xB2, 0xB3, 0xB9) are digits
  for \<open>isdigit\<close>, though not decimal characters.
\<close>

definition is_decimal_char :: "char \<Rightarrow> bool" where
  "is_decimal_char c = (c \<in> set ''0123456789'')"

definition is_digit_char :: "char \<Rightarrow> bool" where
  "is_digit_char c = (is_decimal_char c \<or> c \<in> {CHR 0xB2, CHR 0xB3, CHR 0xB9})"

definition py_isdigit :: "string \<Rightarrow> bool" where
  "py_isdigit s = (s \<noteq> [] \<and> list_all is_digit_char s)"

text \<open>
  \<open>int(s)\<close> as the shell calls it, on a string of digit characters with white space
  around it: the value of the decimal numeral, and \<open>ValueError\<close> when a character is
  not a decimal character.
\<close>

definition py_int :: "string \<Rightarrow> exn + nat" where
  "py_int s =
     (let t = py_strip s in
      if t \<noteq> [] \<and> list_all is_decimal_char t
      then Inr (foldl (\<lambda>n c. 10 * n + (of_char c - 48)) 0 t)
      else Inl ValueError)"

text \<open>\<open>str(n)\<close> for a natural number.\<close>

fun py_str :: "nat \<Rightarrow> string" where
  "py_str n = (if n < 10 then [char_of (48 + n)] else py_str (n div 10) @ [char_of (48 + n mod 10)])"

declare py_str.simps [simp del]

text \<open>\<open>os.path.join(a, b)\<close> on POSIX.\<close>

definition os_path_join :: "string \<Rightarrow> string \<Rightarrow> string" where
  "os_path_join a b =
     (if b \<noteq> [] \<and> hd b = CHR ''/'' then b
      else if a = [] \<or> last a = CHR ''/'' then a @ b
      else a @ ''/'' @ b)"

section \<open>The redirection extractor\<close>

text \<open>
  The value \<open>extract_redirections\<close> returns: the residual command, the stdout target and
  mode, the stderr target and mode. A target is \<open>None\<close> until an operator sets it; the
  modes are the strings the source passes to \<open>open\<close>.
\<close>

type_synonym redirections = "string list \<times> string option \<times> string \<times> string option \<times> string"

text \<open>
  The \<open>while i<len(tokens)\<close> loop of \<open>extract_redirections\<close>, with its five local
  variables as the accumulator. \<open>tokens[i+1]\<close> raises when the operator is the last
  token.
\<close>

function extract_loop :: "string list \<Rightarrow> nat \<Rightarrow> redirections \<Rightarrow> exn + redirections" where
  "extract_loop tokens i (command, stdout_target, stdout_mode, stderr_target, stderr_mode) =
     (if i < length tokens then
        (let token = tokens ! i in
         if token \<in> set [''>'', ''1>''] then
           (case py_index tokens (i + 1) of
              Inl e \<Rightarrow> Inl e
            | Inr t \<Rightarrow> extract_loop tokens (i + 2) (command, Some t, ''w'', stderr_target, stderr_mode))
         else if token = ''2>'' then
           (case py_index tokens (i + 1) of
              Inl e \<Rightarrow> Inl e
            | Inr t \<Rightarrow> extract_loop tokens (i + 2) (command, stdout_target, stdout_mode, Some t, ''w''))
         else if token \<in> set [''>>'', ''1>>''] then
           (case py_index tokens (i + 1) of
              Inl e \<Rightarrow> Inl e
            | Inr t \<Rightarrow> extract_loop tokens (i + 2) (command, Some t, ''a'', stderr_target, stderr_mode))
         else if token = ''2>>'' then
           (case py_index tokens (i + 1) of
              Inl e \<Rightarrow> Inl e
            | Inr t \<Rightarrow> extract_loop tokens (i + 2) (command, stdout_target, stdout_mode, Some t, ''a''))
         else extract_loop tokens (i + 1) (command @ [token], stdout_target, stdout_mode, stderr_target, stderr_mode))
      else Inr (command, stdout_target, stdout_mode, stderr_target, stderr_mode))"
  by pat_completeness auto
termination
  by (relation "measure (\<lambda>(tokens, i, acc). length tokens - i)") auto

declare extract_loop.simps [simp del]

definition extract_redirections :: "string list \<Rightarrow> exn + redirections" where
  "extract_redirections tokens = extract_loop tokens 0 ([], None, ''w'', None, ''w'')"

text \<open>The six operators the extractor recognises, as the spec lists them.\<close>

definition redirection_operators :: "string list" where
  "redirection_operators = [''>'', ''1>'', ''>>'', ''1>>'', ''2>'', ''2>>'']"

definition is_redirection_operator :: "string \<Rightarrow> bool" where
  "is_redirection_operator t = (t \<in> set redirection_operators)"

text \<open>
  What one operator does to the accumulated targets: a stdout operator replaces the
  stdout pair, a stderr operator the stderr pair.
\<close>

definition apply_operator ::
  "string \<Rightarrow> string \<Rightarrow> (string option \<times> string \<times> string option \<times> string)
     \<Rightarrow> (string option \<times> string \<times> string option \<times> string)" where
  "apply_operator op t r =
     (case r of (so, sm, se, em) \<Rightarrow>
        if op = ''>'' \<or> op = ''1>'' then (Some t, ''w'', se, em)
        else if op = ''>>'' \<or> op = ''1>>'' then (Some t, ''a'', se, em)
        else if op = ''2>'' then (so, sm, Some t, ''w'')
        else if op = ''2>>'' then (so, sm, Some t, ''a'')
        else r)"

text \<open>The same scan by recursion on the tokens that remain, used in the proofs.\<close>

fun extract_from :: "string list \<Rightarrow> redirections \<Rightarrow> exn + redirections" where
  "extract_from [] acc = Inr acc"
| "extract_from (t # ts) (command, r) =
     (if is_redirection_operator t then
        (case ts of
           [] \<Rightarrow> Inl IndexError
         | tgt # rest \<Rightarrow> extract_from rest (command, apply_operator t tgt r))
      else extract_from ts (command @ [t], r))"


text \<open>
  Targets set later in the line replace those set earlier: \<open>override base upd\<close> keeps a
  pair of \<open>upd\<close> whose target is set and falls back to \<open>base\<close> otherwise.
\<close>

definition override ::
  "(string option \<times> string \<times> string option \<times> string) \<Rightarrow> (string option \<times> string \<times> string option \<times> string)
     \<Rightarrow> (string option \<times> string \<times> string option \<times> string)" where
  "override base upd =
     (case (base, upd) of ((so1, sm1, se1, em1), (so2, sm2, se2, em2)) \<Rightarrow>
        ((if so2 \<noteq> None then so2 else so1), (if so2 \<noteq> None then sm2 else sm1),
         (if se2 \<noteq> None then se2 else se1), (if se2 \<noteq> None then em2 else em1)))"

section \<open>The tokenizer\<close>

text \<open>
  \<open>parse_input\<close> builds a \<open>shlex.shlex\<close> lexer in POSIX mode, sets
  \<open>whitespace_split\<close> and lists its tokens. The lexer's attributes keep their defaults:
  whitespace is space, tab, carriage return and line feed, the commenter is \<open>#\<close>, the
  quotes are the single and the double quote, the escape is the backslash, which is an
  escape inside double quotes only, and \<open>punctuation_chars\<close> is empty.
\<close>

definition whitespace :: "char set" where
  "whitespace = {CHR '' '', CHR 0x09, CHR 0x0D, CHR 0x0A}"

definition commenters :: "char set" where
  "commenters = {CHR ''#''}"

definition quotes :: "char set" where
  "quotes = {CHR 0x27, CHR 0x22}"

definition escape :: "char set" where
  "escape = {CHR 0x5C}"

definition escapedquotes :: "char set" where
  "escapedquotes = {CHR 0x22}"

text \<open>
  The lexer's \<open>state\<close> attribute: \<open>None\<close> past the end of the input, \<open>' '\<close> between
  tokens, \<open>'a'\<close> inside a word, a quote character inside quotes, the escape character
  after a backslash.
\<close>

datatype lexstate = AtEOF | Between | InWord | InQuote char | InEscape char

text \<open>\<open>instream.readline()\<close>: what is left after the rest of the line and its line feed.\<close>

fun readline_rest :: "string \<Rightarrow> string" where
  "readline_rest [] = []"
| "readline_rest (c # cs) = (if c = CHR 0x0A then cs else readline_rest cs)"

text \<open>
  The code after the loop of \<open>read_token\<close>: the token is the result, and an empty
  token that was never quoted is the end-of-input marker \<open>None\<close>.
\<close>

definition emit :: "bool \<Rightarrow> string \<Rightarrow> lexstate \<Rightarrow> string \<Rightarrow> exn + (string option \<times> lexstate \<times> string)" where
  "emit quoted token st instream =
     Inr (if \<not> quoted \<and> token = [] then None else Some token, st, instream)"

text \<open>
  The \<open>while True\<close> loop of \<open>shlex.read_token\<close>, one character per iteration, over the
  lexer state, the locals \<open>quoted\<close> and \<open>escapedstate\<close>, the token built so far and the
  unread input. With \<open>whitespace_split\<close> set and no punctuation characters, the
  \<open>wordchars\<close> branch and the \<open>whitespace_split\<close> branch do the same, and state \<open>'c'\<close>
  is never entered; both are written once. Reading in a quote or after an escape at the
  end of the input raises \<open>ValueError\<close>.
\<close>

function (sequential) read_token_loop ::
  "lexstate \<Rightarrow> bool \<Rightarrow> lexstate \<Rightarrow> string \<Rightarrow> string \<Rightarrow> exn + (string option \<times> lexstate \<times> string)" where
  "read_token_loop AtEOF quoted escapedstate token instream =
     emit quoted [] AtEOF (drop 1 instream)"
| "read_token_loop Between quoted escapedstate token [] =
     emit quoted token AtEOF []"
| "read_token_loop Between quoted escapedstate token (nextchar # rest) =
     (if nextchar \<in> whitespace then
        (if token \<noteq> [] \<or> quoted then emit quoted token Between rest
         else read_token_loop Between quoted escapedstate token rest)
      else if nextchar \<in> commenters then
        read_token_loop Between quoted escapedstate token (readline_rest rest)
      else if nextchar \<in> escape then
        read_token_loop (InEscape nextchar) quoted InWord token rest
      else if nextchar \<in> quotes then
        read_token_loop (InQuote nextchar) quoted escapedstate token rest
      else read_token_loop InWord quoted escapedstate [nextchar] rest)"
| "read_token_loop (InQuote q) quoted escapedstate token [] = Inl ValueError"
| "read_token_loop (InQuote q) quoted escapedstate token (nextchar # rest) =
     (if nextchar = q then read_token_loop InWord True escapedstate token rest
      else if nextchar \<in> escape \<and> q \<in> escapedquotes then
        read_token_loop (InEscape nextchar) True (InQuote q) token rest
      else read_token_loop (InQuote q) True escapedstate (token @ [nextchar]) rest)"
| "read_token_loop (InEscape e) quoted escapedstate token [] = Inl ValueError"
| "read_token_loop (InEscape e) quoted escapedstate token (nextchar # rest) =
     read_token_loop escapedstate quoted escapedstate
       ((case escapedstate of
           InQuote q \<Rightarrow> if nextchar \<noteq> e \<and> nextchar \<noteq> q then token @ [e] else token
         | _ \<Rightarrow> token) @ [nextchar])
       rest"
| "read_token_loop InWord quoted escapedstate token [] =
     emit quoted token AtEOF []"
| "read_token_loop InWord quoted escapedstate token (nextchar # rest) =
     (if nextchar \<in> whitespace then
        (if token \<noteq> [] \<or> quoted then emit quoted token Between rest
         else read_token_loop Between quoted escapedstate token rest)
      else if nextchar \<in> commenters then
        (if token \<noteq> [] \<or> quoted then emit quoted token Between (readline_rest rest)
         else read_token_loop Between quoted escapedstate token (readline_rest rest))
      else if nextchar \<in> quotes then
        read_token_loop (InQuote nextchar) quoted escapedstate token rest
      else if nextchar \<in> escape then
        read_token_loop (InEscape nextchar) quoted InWord token rest
      else read_token_loop InWord quoted escapedstate (token @ [nextchar]) rest)"
  by pat_completeness auto
termination
proof -
  have len: "length (readline_rest cs) \<le> length cs" for cs
    by (induction cs) auto
  show ?thesis
    by (relation "measure (\<lambda>(st, quoted, escapedstate, token, instream). length instream)")
       (auto simp: len less_Suc_eq_le)
qed

text \<open>\<open>read_token\<close>: the loop entered with \<open>quoted = False\<close>, \<open>escapedstate = ' '\<close> and
  the empty token the previous call left.\<close>

definition read_token :: "lexstate \<Rightarrow> string \<Rightarrow> exn + (string option \<times> lexstate \<times> string)" where
  "read_token st instream = read_token_loop st False Between [] instream"

text \<open>
  \<open>list(lexer)\<close>: \<open>__next__\<close> calls \<open>get_token\<close>, which calls \<open>read_token\<close> (nothing is
  ever pushed back and there is no file stack), until the end-of-input marker.
\<close>

function lexer_list :: "lexstate \<Rightarrow> string \<Rightarrow> exn + string list" where
  "lexer_list st instream =
     (case read_token st instream of
        Inl e \<Rightarrow> Inl e
      | Inr (None, st', instream') \<Rightarrow> Inr []
      | Inr (Some t, st', instream') \<Rightarrow>
          (case lexer_list st' instream' of
             Inl e \<Rightarrow> Inl e
           | Inr ts \<Rightarrow> Inr (t # ts)))"
  by pat_completeness auto
termination
proof (relation "measure (\<lambda>(st, instream). 2 * length instream + (if st = AtEOF then 0 else 1))")
  have len: "length (readline_rest cs) \<le> length cs" for cs
    by (induction cs) auto
  have progress:
    "read_token_loop st quoted escapedstate token instream = Inr (r, st', instream') \<Longrightarrow>
     length instream' \<le> length instream
     \<and> (st' = AtEOF \<or> (st' = Between \<and> length instream' < length instream))"
    for st quoted escapedstate token instream r st' instream'
  proof (induction st quoted escapedstate token instream rule: read_token_loop.induct)
    case (3 quoted escapedstate token nextchar rest)
    then show ?case
      using len [of rest] by (auto simp: emit_def split: if_splits)
  next
    case (9 quoted escapedstate token nextchar rest)
    then show ?case
      using len [of rest] by (auto simp: emit_def split: if_splits)
  qed (auto simp: emit_def split: if_splits)
  fix st instream x y t z st' instream'
  assume "read_token st instream = Inr x" "(y, z) = x" "y = Some t" "(st', instream') = z"
  then have r: "read_token_loop st False Between [] instream = Inr (Some t, st', instream')"
    by (auto simp: read_token_def)
  then have "st \<noteq> AtEOF"
    by (auto simp: emit_def)
  with progress [OF r]
  show "((st', instream'), (st, instream))
          \<in> measure (\<lambda>(st, instream). 2 * length instream + (if st = AtEOF then 0 else 1))"
    by auto
qed simp

declare lexer_list.simps [simp del]

definition parse_input :: "string \<Rightarrow> exn + string list" where
  "parse_input command = lexer_list Between command"


subsection \<open>Reading on from the middle of a token\<close>

text \<open>
  \<open>lex_from\<close> is \<open>list(lexer)\<close> entered in the middle of a call of \<open>read_token\<close>: the
  loop goes on from the given state, flags and token, and the tokens of the later calls
  follow. \<open>parse_input\<close> is \<open>lex_from\<close> at the start of the line.
\<close>

definition cons_token :: "string \<Rightarrow> exn + string list \<Rightarrow> exn + string list" where
  "cons_token t r = (case r of Inl e \<Rightarrow> Inl e | Inr ts \<Rightarrow> Inr (t # ts))"

definition lex_from :: "lexstate \<Rightarrow> bool \<Rightarrow> lexstate \<Rightarrow> string \<Rightarrow> string \<Rightarrow> exn + string list" where
  "lex_from st quoted escapedstate token instream =
     (case read_token_loop st quoted escapedstate token instream of
        Inl e \<Rightarrow> Inl e
      | Inr (None, st', instream') \<Rightarrow> Inr []
      | Inr (Some t, st', instream') \<Rightarrow> cons_token t (lexer_list st' instream'))"

text \<open>
  The quoting context of a position in a line, by the quoting rules alone: outside
  quotes, inside a pair of quotes, right after a backslash (outside quotes, or inside
  double quotes), or inside a comment, which a \<open>#\<close> outside quotes opens and a line
  feed closes. \<open>quote_context pre\<close> is the context right after the prefix \<open>pre\<close>.
\<close>

datatype qctx = Unquoted | Quoted char | Escaped | EscapedIn char | Commented

fun qstep :: "qctx \<Rightarrow> char \<Rightarrow> qctx" where
  "qstep Unquoted c =
     (if c \<in> commenters then Commented
      else if c \<in> escape then Escaped
      else if c \<in> quotes then Quoted c
      else Unquoted)"
| "qstep (Quoted q) c =
     (if c = q then Unquoted
      else if c \<in> escape \<and> q \<in> escapedquotes then EscapedIn q
      else Quoted q)"
| "qstep Escaped c = Unquoted"
| "qstep (EscapedIn q) c = Quoted q"
| "qstep Commented c = (if c = CHR 0x0A then Unquoted else Commented)"

definition quote_context :: "string \<Rightarrow> qctx" where
  "quote_context pre = foldl qstep Unquoted pre"

text \<open>
  The context a lexer state stands for, and the states the lexer can be in while
  input is left: \<open>escapedstate\<close> is \<open>' '\<close>, \<open>'a'\<close> or a quote, and after a backslash
  it is not \<open>' '\<close>.
\<close>

fun ctx_of :: "lexstate \<Rightarrow> lexstate \<Rightarrow> qctx" where
  "ctx_of (InQuote q) escapedstate = Quoted q"
| "ctx_of (InEscape e) (InQuote q) = EscapedIn q"
| "ctx_of (InEscape e) escapedstate = Escaped"
| "ctx_of st escapedstate = Unquoted"

fun wf_config :: "lexstate \<Rightarrow> lexstate \<Rightarrow> bool" where
  "wf_config AtEOF escapedstate = False"
| "wf_config st AtEOF = False"
| "wf_config st (InEscape e) = False"
| "wf_config (InEscape e) Between = False"
| "wf_config st escapedstate = True"

section \<open>The interpreter's state\<close>

text \<open>
  \<open>sys.stdout\<close> and \<open>sys.stderr\<close> hold a stream object: one of the two streams of the
  terminal, or a file object that \<open>open\<close> returned for a path.
\<close>

datatype stream = Stdout | Stderr | FileStream string

text \<open>
  Everything the shell reads or changes: the environment and the file system as far as
  the shell looks at them, the working directory, the history list of the \<open>readline\<close>
  module, the module's two globals \<open>last_appended_index\<close> and
  \<open>initial_history_length\<close> (only ever assigned \<open>0\<close> or a history length), the two
  stream pointers, the text written to the terminal and the processes started.
  \<open>chdir_target w d p\<close> is the directory \<open>os.chdir(p)\<close> arrives at from \<open>d\<close>, and
  \<open>None\<close> when the call fails; \<open>home\<close> is what \<open>os.path.expanduser("~")\<close> returns;
  \<open>can_open\<close> says whether \<open>open(p, "w")\<close> and \<open>open(p, "a")\<close> succeed. Paths are
  taken to be free of NUL characters, for which these calls raise \<open>ValueError\<close>
  before they reach the file system.
\<close>

record world =
  environ :: "string \<rightharpoonup> string"
  home :: string
  cwd :: string
  chdir_target :: "string \<Rightarrow> string \<Rightarrow> string option"
  is_dir :: "string \<Rightarrow> bool"
  is_executable_file :: "string \<Rightarrow> bool"
  files :: "string \<rightharpoonup> string"
  can_open :: "string \<Rightarrow> bool"
  history :: "string list"
  last_appended_index :: nat
  initial_history_length :: nat
  sys_stdout :: stream
  sys_stderr :: stream
  terminal :: string
  spawned :: "(string list \<times> string \<times> stream option \<times> stream option) list"

text \<open>A call either returns or raises; the state it leaves is kept in both cases.\<close>

datatype result = Returned | Raised exn

type_synonym outcome = "result \<times> world"

type_synonym handler = "string \<Rightarrow> world \<Rightarrow> outcome"

text \<open>\<open>except OSError\<close> also catches the subclasses of \<open>OSError\<close>.\<close>

definition is_OSError :: "exn \<Rightarrow> bool" where
  "is_OSError e = (e = OSError \<or> e = FileNotFoundError)"

definition file_content :: "world \<Rightarrow> string \<Rightarrow> string" where
  "file_content w path = (case files w path of None \<Rightarrow> [] | Some c \<Rightarrow> c)"

text \<open>
  \<open>open(path, mode)\<close> for the modes \<open>"w"\<close> and \<open>"a"\<close>: the file is created when it is
  missing and emptied in mode \<open>"w"\<close>; a failure is an \<open>OSError\<close>.
\<close>

definition open_file :: "string \<Rightarrow> string \<Rightarrow> world \<Rightarrow> exn + world" where
  "open_file path mode w =
     (if can_open w path
      then Inr (w\<lparr>files := (files w)(path \<mapsto> (if mode = ''a'' then file_content w path else []))\<rparr>)
      else Inl OSError)"

definition write_file :: "string \<Rightarrow> string \<Rightarrow> world \<Rightarrow> world" where
  "write_file path text w = w\<lparr>files := (files w)(path \<mapsto> file_content w path @ text)\<rparr>"

definition write_stream :: "stream \<Rightarrow> string \<Rightarrow> world \<Rightarrow> world" where
  "write_stream s text w =
     (case s of
        FileStream path \<Rightarrow> write_file path text w
      | _ \<Rightarrow> w\<lparr>terminal := terminal w @ text\<rparr>)"

text \<open>\<open>print(s)\<close> writes the string and a line feed to the current \<open>sys.stdout\<close>.\<close>

definition print :: "string \<Rightarrow> world \<Rightarrow> world" where
  "print s w = write_stream (sys_stdout w) (s @ [CHR 0x0A]) w"

subsection \<open>The readline module\<close>

definition unlines :: "string list \<Rightarrow> string" where
  "unlines ls = concat (map (\<lambda>l. l @ [CHR 0x0A]) ls)"

text \<open>The lines of a file, a last line without a line feed included.\<close>

definition file_lines :: "string \<Rightarrow> string list" where
  "file_lines content =
     (let ls = split_at (CHR 0x0A) [] content in if last ls = [] then butlast ls else ls)"

definition last_n :: "nat \<Rightarrow> 'a list \<Rightarrow> 'a list" where
  "last_n n xs = drop (length xs - n) xs"

text \<open>
  \<open>readline.get_history_item(i)\<close>: the entry of index \<open>i\<close>, counted from 1, and \<open>None\<close>
  outside the list.
\<close>

definition readline_get_history_item :: "world \<Rightarrow> nat \<Rightarrow> string option" where
  "readline_get_history_item w i =
     (if 1 \<le> i \<and> i \<le> length (history w) then Some (history w ! (i - 1)) else None)"

text \<open>\<open>readline.read_history_file(path)\<close> adds the non-empty lines of the file to the
  history; a missing file is a \<open>FileNotFoundError\<close>.\<close>

definition readline_read_history_file :: "string \<Rightarrow> world \<Rightarrow> exn + world" where
  "readline_read_history_file path w =
     (case files w path of
        None \<Rightarrow> Inl FileNotFoundError
      | Some content \<Rightarrow> Inr (w\<lparr>history := history w @ filter (\<lambda>l. l \<noteq> []) (file_lines content)\<rparr>))"

text \<open>
  \<open>readline.write_history_file(path)\<close> replaces the file by the history, and
  \<open>readline.append_history_file(n, path)\<close> adds the last \<open>n\<close> entries to a file that
  must already exist. Both then cut the file to the history length that
  \<open>readline_config\<close> has set, 1000 lines.
\<close>

definition history_length :: nat where
  "history_length = 1000"

definition readline_write_history_file :: "string \<Rightarrow> world \<Rightarrow> exn + world" where
  "readline_write_history_file path w =
     (if can_open w path
      then Inr (w\<lparr>files := (files w)(path \<mapsto> unlines (last_n history_length (history w)))\<rparr>)
      else Inl OSError)"

definition readline_append_history_file :: "nat \<Rightarrow> string \<Rightarrow> world \<Rightarrow> exn + world" where
  "readline_append_history_file nelements path w =
     (case files w path of
        None \<Rightarrow> Inl FileNotFoundError
      | Some content \<Rightarrow>
          if can_open w path
          then Inr (w\<lparr>files := (files w)(path \<mapsto>
                 unlines (last_n history_length
                   (file_lines (content @ unlines (last_n nelements (history w))))))\<rparr>)
          else Inl OSError)"

section \<open>The builtins\<close>

text \<open>\<open>write_to_history_file\<close>: nothing without a \<open>HISTFILE\<close>; otherwise the entries
  added since \<open>load_history\<close> are appended to the file.\<close>

definition write_to_history_file :: "world \<Rightarrow> outcome" where
  "write_to_history_file w =
     (case environ w ''HISTFILE'' of
        None \<Rightarrow> (Returned, w)
      | Some histfile \<Rightarrow>
          if histfile = [] then (Returned, w)
          else
            (let total = int (length (history w));
                 new_lines = total - int (initial_history_length w)
             in if new_lines > 0 then
                  (case readline_append_history_file (nat new_lines) histfile w of
                     Inl e \<Rightarrow> (Raised e, w)
                   | Inr w' \<Rightarrow> (Returned, w'))
                else (Returned, w)))"

text \<open>\<open>sys.exit(n)\<close> raises \<open>SystemExit\<close> with the status \<open>n\<close>.\<close>

definition exit_shell :: handler where
  "exit_shell input w =
     (case write_to_history_file w of
        (Raised e, w') \<Rightarrow> (Raised e, w')
      | (Returned, w') \<Rightarrow>
          if py_isdigit (py_strip input) then
            (case py_int input of
               Inl e \<Rightarrow> (Raised e, w')
             | Inr n \<Rightarrow> (Raised (SystemExit (int n)), w'))
          else (Raised (SystemExit 0), w'))"

definition echo :: handler where
  "echo input w = (Returned, print input w)"

definition get_cwd :: handler where
  "get_cwd _ w = (Returned, print (cwd w) w)"

text \<open>\<open>find_executable\<close>: the first directory of \<open>PATH\<close> that is a directory and holds
  an executable file of that name.\<close>

fun find_in_dirs :: "world \<Rightarrow> string \<Rightarrow> string list \<Rightarrow> string option" where
  "find_in_dirs w cmd [] = None"
| "find_in_dirs w cmd (directory # rest) =
     (if \<not> is_dir w directory then find_in_dirs w cmd rest
      else (let full_path = os_path_join directory cmd in
            if is_executable_file w full_path then Some full_path
            else find_in_dirs w cmd rest))"

definition find_executable :: "string \<Rightarrow> world \<Rightarrow> string option" where
  "find_executable cmd w =
     find_in_dirs w cmd
       (py_split_sep (CHR '':'') (case environ w ''PATH'' of None \<Rightarrow> [] | Some p \<Rightarrow> p))"

text \<open>The keys of \<open>builtin_commands\<close> after \<open>_init_builtins\<close>.\<close>

definition builtin_names :: "string list" where
  "builtin_names = [''exit'', ''echo'', ''type'', ''pwd'', ''cd'', ''history'']"

definition typeOf :: handler where
  "typeOf input w =
     (if input \<in> set builtin_names then (Returned, print (input @ '' is a shell builtin'') w)
      else
        (case find_executable input w of
           Some executable_path \<Rightarrow>
             if executable_path \<noteq> [] then (Returned, print (input @ '' is '' @ executable_path) w)
             else (Returned, print (input @ '': not found'') w)
         | None \<Rightarrow> (Returned, print (input @ '': not found'') w)))"

text \<open>\<open>os.chdir\<close>: a failed call raises an \<open>OSError\<close> and leaves the directory.\<close>

definition os_chdir :: "string \<Rightarrow> world \<Rightarrow> exn + world" where
  "os_chdir path w =
     (case chdir_target w (cwd w) path of
        None \<Rightarrow> Inl FileNotFoundError
      | Some d \<Rightarrow> Inr (w\<lparr>cwd := d\<rparr>))"

definition change_directory :: handler where
  "change_directory input w =
     (let input = (if input = ''~'' then home w else input) in
      case os_chdir input w of
        Inr w' \<Rightarrow> (Returned, w')
      | Inl e \<Rightarrow>
          if is_OSError e
          then (Returned, print (''cd: '' @ input @ '': No such file or directory'') w)
          else (Raised e, w))"

text \<open>The loop of \<open>history -a\<close>: one \<open>f.write\<close> per index; \<open>None + "\n"\<close> would be a
  \<open>TypeError\<close>.\<close>

fun write_history_items :: "string \<Rightarrow> nat list \<Rightarrow> world \<Rightarrow> outcome" where
  "write_history_items path [] w = (Returned, w)"
| "write_history_items path (i # rest) w =
     (case readline_get_history_item w i of
        None \<Rightarrow> (Raised TypeError, w)
      | Some item \<Rightarrow> write_history_items path rest (write_file path (item @ [CHR 0x0A]) w))"

text \<open>The loop of the listing: \<open>None\<close> is printed as the word.\<close>

fun print_history_items :: "nat list \<Rightarrow> world \<Rightarrow> world" where
  "print_history_items [] w = w"
| "print_history_items (i # rest) w =
     print_history_items rest
       (print (''    '' @ py_str i @ ''  '' @
          (case readline_get_history_item w i of None \<Rightarrow> ''None'' | Some item \<Rightarrow> item)) w)"

definition get_history :: handler where
  "get_history input w =
     (let args = py_split (py_strip input) in
      if length args = 2 \<and> args ! 0 = ''-r'' then
        (let file_path = args ! 1 in
         case readline_read_history_file file_path w of
           Inr w' \<Rightarrow> (Returned, w')
         | Inl e \<Rightarrow>
             if e = FileNotFoundError
             then (Returned, print (''history: '' @ file_path @ '': No such file or directory'') w)
             else (Raised e, w))
      else if length args = 2 \<and> args ! 0 = ''-w'' then
        (let file_path = args ! 1 in
         case readline_write_history_file file_path w of
           Inr w' \<Rightarrow> (Returned, w')
         | Inl e \<Rightarrow> (Raised e, w))
      else if length args = 2 \<and> args ! 0 = ''-a'' then
        (let file_path = args ! 1;
             total = length (history w)
         in case open_file file_path ''a'' w of
              Inl e \<Rightarrow> (Raised e, w)
            | Inr w1 \<Rightarrow>
                (case write_history_items file_path [last_appended_index w + 1 ..< total + 1] w1 of
                   (Raised e, w2) \<Rightarrow> (Raised e, w2)
                 | (Returned, w2) \<Rightarrow> (Returned, w2\<lparr>last_appended_index := total\<rparr>)))
      else
        (case (if length args = 1 \<and> py_isdigit (args ! 0) then py_int (args ! 0) else Inr 100) of
           Inl e \<Rightarrow> (Raised e, w)
         | Inr n \<Rightarrow>
             (let total = length (history w);
                  startindex = total - n
              in (Returned, print_history_items [startindex + 1 ..< total + 1] w))))"

text \<open>The registry \<open>builtin_commands\<close> as \<open>_init_builtins\<close> fills it.\<close>

definition builtin_commands :: "string \<rightharpoonup> handler" where
  "builtin_commands =
     map_of [(''exit'', exit_shell), (''echo'', echo), (''type'', typeOf), (''pwd'', get_cwd),
             (''cd'', change_directory), (''history'', get_history)]"

section \<open>The dispatcher and the read loop\<close>

text \<open>Truth of an \<open>Optional[str]\<close> in an \<open>if\<close>: neither \<open>None\<close> nor the empty string.\<close>

definition truthy :: "string option \<Rightarrow> bool" where
  "truthy t = (case t of None \<Rightarrow> False | Some s \<Rightarrow> s \<noteq> [])"

text \<open>\<open>subprocess.run\<close> is a black box: the call is recorded with its argument vector,
  the executable and the streams handed to the child.\<close>

definition subprocess_run :: "string list \<Rightarrow> string \<Rightarrow> stream option \<Rightarrow> stream option \<Rightarrow> world \<Rightarrow> world" where
  "subprocess_run argv executable out err w = w\<lparr>spawned := spawned w @ [(argv, executable, out, err)]\<rparr>"

text \<open>
  The builtin branch of \<open>handle_command\<close> under a redirection. The \<open>with\<close> statement
  opens the targets; the stream pointers are saved, replaced, and assigned back after
  the handler has returned. Nothing catches an exception of the handler, so the
  assignments after the call are skipped when it raises.
\<close>

definition call_builtin ::
  "handler \<Rightarrow> string \<Rightarrow> string option \<Rightarrow> string \<Rightarrow> string option \<Rightarrow> string \<Rightarrow> world \<Rightarrow> outcome" where
  "call_builtin h arg stdout_target stdout_mode stderr_target stderr_mode w =
     (if truthy stdout_target \<and> truthy stderr_target then
        (case open_file (the stdout_target) stdout_mode w of
           Inl e \<Rightarrow> (Raised e, w)
         | Inr w1 \<Rightarrow>
             (case open_file (the stderr_target) stderr_mode w1 of
                Inl e \<Rightarrow> (Raised e, w1)
              | Inr w2 \<Rightarrow>
                  (let old_stdout = sys_stdout w2;
                       old_stderr = sys_stderr w2;
                       w3 = w2\<lparr>sys_stdout := FileStream (the stdout_target),
                               sys_stderr := FileStream (the stderr_target)\<rparr>
                   in case h arg w3 of
                        (Raised e, w4) \<Rightarrow> (Raised e, w4)
                      | (Returned, w4) \<Rightarrow>
                          (Returned, w4\<lparr>sys_stdout := old_stdout, sys_stderr := old_stderr\<rparr>))))
      else if truthy stdout_target then
        (case open_file (the stdout_target) stdout_mode w of
           Inl e \<Rightarrow> (Raised e, w)
         | Inr w1 \<Rightarrow>
             (let old_stdout = sys_stdout w1;
                  w2 = w1\<lparr>sys_stdout := FileStream (the stdout_target)\<rparr>
              in case h arg w2 of
                   (Raised e, w3) \<Rightarrow> (Raised e, w3)
                 | (Returned, w3) \<Rightarrow> (Returned, w3\<lparr>sys_stdout := old_stdout\<rparr>)))
      else if truthy stderr_target then
        (case open_file (the stderr_target) stderr_mode w of
           Inl e \<Rightarrow> (Raised e, w)
         | Inr w1 \<Rightarrow>
             (let old_stderr = sys_stderr w1;
                  w2 = w1\<lparr>sys_stderr := FileStream (the stderr_target)\<rparr>
              in case h arg w2 of
                   (Raised e, w3) \<Rightarrow> (Raised e, w3)
                 | (Returned, w3) \<Rightarrow> (Returned, w3\<lparr>sys_stderr := old_stderr\<rparr>)))
      else h arg w)"

text \<open>The external branch: the targets are opened and handed to the child.\<close>

definition run_external ::
  "string list \<Rightarrow> string \<Rightarrow> string option \<Rightarrow> string \<Rightarrow> string option \<Rightarrow> string \<Rightarrow> world \<Rightarrow> outcome" where
  "run_external commandArr executable_path stdout_target stdout_mode stderr_target stderr_mode w =
     (if truthy stdout_target \<and> truthy stderr_target then
        (case open_file (the stdout_target) stdout_mode w of
           Inl e \<Rightarrow> (Raised e, w)
         | Inr w1 \<Rightarrow>
             (case open_file (the stderr_target) stderr_mode w1 of
                Inl e \<Rightarrow> (Raised e, w1)
              | Inr w2 \<Rightarrow>
                  (Returned, subprocess_run commandArr executable_path
                     (Some (FileStream (the stdout_target))) (Some (FileStream (the stderr_target))) w2)))
      else if truthy stdout_target then
        (case open_file (the stdout_target) stdout_mode w of
           Inl e \<Rightarrow> (Raised e, w)
         | Inr w1 \<Rightarrow>
             (Returned, subprocess_run commandArr executable_path
                (Some (FileStream (the stdout_target))) None w1))
      else if truthy stderr_target then
        (case open_file (the stderr_target) stderr_mode w of
           Inl e \<Rightarrow> (Raised e, w)
         | Inr w1 \<Rightarrow>
             (Returned, subprocess_run commandArr executable_path
                None (Some (FileStream (the stderr_target))) w1))
      else (Returned, subprocess_run commandArr executable_path None None w))"

text \<open>
  \<open>handle_command\<close>. An exception of the tokenizer or of the extractor leaves the
  function at once, and so does the \<open>IndexError\<close> of \<open>commandArr[0]\<close> on an empty
  command.
\<close>

definition handle_command :: "string \<Rightarrow> world \<Rightarrow> outcome" where
  "handle_command command w =
     (case parse_input command of
        Inl e \<Rightarrow> (Raised e, w)
      | Inr tokens \<Rightarrow>
          (case extract_redirections tokens of
             Inl e \<Rightarrow> (Raised e, w)
           | Inr (commandArr, stdout_target, stdout_mode, stderr_target, stderr_mode) \<Rightarrow>
               (case py_index commandArr 0 of
                  Inl e \<Rightarrow> (Raised e, w)
                | Inr name \<Rightarrow>
                    (case builtin_commands name of
                       Some h \<Rightarrow>
                         call_builtin h (py_join '' '' (drop 1 commandArr))
                           stdout_target stdout_mode stderr_target stderr_mode w
                     | None \<Rightarrow>
                         (case find_executable name w of
                            Some executable_path \<Rightarrow>
                              if executable_path \<noteq> []
                              then run_external commandArr executable_path
                                     stdout_target stdout_mode stderr_target stderr_mode w
                              else (Returned, print (name @ '': command not found'') w)
                          | None \<Rightarrow> (Returned, print (name @ '': command not found'') w))))))"

text \<open>\<open>load_history\<close>, called once before the loop.\<close>

definition load_history :: "world \<Rightarrow> outcome" where
  "load_history w =
     (case environ w ''HISTFILE'' of
        None \<Rightarrow> (Returned, w\<lparr>initial_history_length := length (history w)\<rparr>)
      | Some histfile \<Rightarrow>
          if histfile \<noteq> [] \<and> files w histfile \<noteq> None then
            (case readline_read_history_file histfile w of
               Inl e \<Rightarrow> (Raised e, w)
             | Inr w' \<Rightarrow> (Returned, w'\<lparr>initial_history_length := length (history w')\<rparr>))
          else (Returned, w\<lparr>initial_history_length := length (history w)\<rparr>))"

text \<open>
  The bookkeeping of one turn of the read loop, between \<open>input\<close> and
  \<open>handle_command\<close>: \<open>readline.add_history\<close> for a line that \<open>strip()\<close> leaves
  non-empty.
\<close>

definition record_command :: "string \<Rightarrow> world \<Rightarrow> world" where
  "record_command command w =
     (if py_strip command \<noteq> [] then w\<lparr>history := history w @ [command]\<rparr> else w)"

text \<open>
  The \<open>while(True)\<close> loop of \<open>main\<close> over the lines typed. \<open>input("$ ")\<close> writes the
  prompt and raises \<open>EOFError\<close> when no line is left. No exception is caught, so the
  loop ends with the first one, and the process with it.
\<close>

fun read_loop :: "string list \<Rightarrow> world \<Rightarrow> exn \<times> world" where
  "read_loop [] w = (EOFError, w\<lparr>terminal := terminal w @ ''$ ''\<rparr>)"
| "read_loop (command # rest) w =
     (case handle_command command (record_command command (w\<lparr>terminal := terminal w @ ''$ ''\<rparr>)) of
        (Raised e, w') \<Rightarrow> (e, w')
      | (Returned, w') \<Rightarrow> read_loop rest w')"

definition main :: "string list \<Rightarrow> world \<Rightarrow> exn \<times> world" where
  "main lines w =
     (case load_history w of
        (Raised e, w') \<Rightarrow> (e, w')
      | (Returned, w') \<Rightarrow> read_loop lines w')"

section \<open>A world to evaluate in\<close>

text \<open>
  A small state for concrete runs: no environment variables, an empty file system in
  which only \<open>out.txt\<close> and \<open>h.txt\<close> can be opened for writing, the home directory
  and \<open>/tmp\<close> as the only directories \<open>os.chdir\<close> reaches, an empty history, and the
  terminal's streams in \<open>sys.stdout\<close> and \<open>sys.stderr\<close>.
\<close>

definition example_world :: world where
  "example_world =
     \<lparr>environ = Map.empty,
      home = ''/home/user'',
      cwd = ''/home/user'',
      chdir_target = (\<lambda>d p. if p = ''/home/user'' \<or> p = ''/tmp'' then Some p else None),
      is_dir = (\<lambda>p. p = ''/usr/bin''),
      is_executable_file = (\<lambda>p. p = ''/usr/bin/ls''),
      files = Map.empty,
      can_open = (\<lambda>p. p = ''out.txt'' \<or> p = ''h.txt''),
      history = [],
      last_appended_index = 0,
      initial_history_length = 0,
      sys_stdout = Stdout,
      sys_stderr = Stderr,
      terminal = [],
      spawned = []\<rparr>"

section \<open>The extractor's scan\<close>

lemma extract_loop_drop:
  "i \<le> length tokens \<Longrightarrow> extract_loop tokens i acc = extract_from (drop i tokens) acc"
proof (induction tokens i acc rule: extract_loop.induct)
  case (1 tokens i command so sm se em)
  show ?case
  proof (cases "i < length tokens")
    case False
    with "1.prems" show ?thesis by (simp add: extract_loop.simps)
  next
    case True
    then have d: "drop i tokens = tokens ! i # drop (Suc i) tokens"
      by (simp add: Cons_nth_drop_Suc)
    show ?thesis
    proof (cases "Suc i < length tokens")
      case False
      with True have e: "drop (Suc i) tokens = []" by simp
      from True False "1.IH"(5) show ?thesis
        by (subst extract_loop.simps)
           (simp add: d e py_index_def is_redirection_operator_def redirection_operators_def Let_def)
    next
      case s: True
      then have d2: "drop (Suc i) tokens = tokens ! Suc i # drop (Suc (Suc i)) tokens"
        by (simp add: Cons_nth_drop_Suc)
      from True s "1.IH" show ?thesis
        by (subst extract_loop.simps)
           (simp add: d d2 py_index_def is_redirection_operator_def redirection_operators_def
              apply_operator_def Let_def)
    qed
  qed
qed

lemma extract_redirections_from:
  "extract_redirections tokens = extract_from tokens ([], None, ''w'', None, ''w'')"
  by (simp add: extract_redirections_def extract_loop_drop)

lemma override_apply_operator:
  "override base (apply_operator op t r) = apply_operator op t (override base r)"
  by (cases base; cases r) (simp add: override_def apply_operator_def)

lemma override_initial: "override base (None, ''w'', None, ''w'') = base"
  by (cases base) (simp add: override_def)

lemma extract_from_append:
  "extract_from pre (c, r) = Inr (c1, r1) \<Longrightarrow>
   extract_from (pre @ rest) (c, r) = extract_from rest (c1, r1)"
proof (induction pre "(c, r)" arbitrary: c r rule: extract_from.induct)
  case 1
  then show ?case by simp
next
  case (2 t ts command r)
  then show ?case by (auto split: if_splits list.splits)
qed

lemma extract_from_acc:
  "extract_from ts (c0, r) = Inr (c2, r2) \<Longrightarrow>
   extract_from ts (c @ c0, override base r) = Inr (c @ c2, override base r2)"
proof (induction ts "(c0, r)" arbitrary: c0 r rule: extract_from.induct)
  case 1
  then show ?case by simp
next
  case (2 t ts command r)
  then show ?case
    by (auto split: if_splits list.splits simp: override_apply_operator)
qed

lemma extract_from_plain:
  "\<forall>t\<in>set ts. \<not> is_redirection_operator t \<Longrightarrow> extract_from ts (c, r) = Inr (c @ ts, r)"
  by (induction ts arbitrary: c) auto

lemma extract_from_no_operator:
  "extract_from ts (c, r) = Inr (c', r') \<Longrightarrow> \<forall>t\<in>set c. \<not> is_redirection_operator t
    \<Longrightarrow> \<forall>t\<in>set c'. \<not> is_redirection_operator t"
proof (induction ts "(c, r)" arbitrary: c r rule: extract_from.induct)
  case 1
  then show ?case by simp
next
  case (2 t ts command r)
  show ?case
  proof (cases "is_redirection_operator t")
    case True
    with "2.prems"(1) obtain tgt rest where ts: "ts = tgt # rest"
      by (cases ts) auto
    with True "2.prems"(1)
    have "extract_from rest (command, apply_operator t tgt r) = Inr (c', r')"
      by simp
    from "2.hyps"(1) [OF True ts this "2.prems"(2)] show ?thesis .
  next
    case False
    with "2.prems"(1) have e: "extract_from ts (command @ [t], r) = Inr (c', r')"
      by simp
    from False "2.prems"(2) have "\<forall>x\<in>set (command @ [t]). \<not> is_redirection_operator x"
      by simp
    from "2.hyps"(2) [OF False e this] show ?thesis .
  qed
qed

lemma extract_from_dangling:
  "extract_from pre (c, r) = Inr (c1, r1) \<Longrightarrow> is_redirection_operator op \<Longrightarrow>
   extract_from (pre @ [op]) (c, r) = Inl IndexError"
  by (simp add: extract_from_append)

text \<open>
  C4. Redirection operators are removed with their targets wherever they stand. A token
  list without operators is returned as it is, with no target and both modes \<open>"w"\<close>.
  When \<open>pre\<close> and \<open>post\<close> are token lists the extractor accepts, an operator and its
  target between them leave the residual commands of \<open>pre\<close> and \<open>post\<close> one after the
  other, in their order; for each stream the target and mode are those of the last
  operator for that stream in the line: those of \<open>post\<close> if it sets the stream, else
  those of the operator if it is for the stream, else those of \<open>pre\<close>. The two lines of the
  spec's example give the command \<open>[echo, hi]\<close> and the stdout target \<open>out.txt\<close> in
  mode \<open>"w"\<close>.
\<close>

theorem extract_redirections_anywhere:
  "((\<forall>t\<in>set ts. \<not> is_redirection_operator t) \<longrightarrow>
      extract_redirections ts = Inr (ts, None, ''w'', None, ''w''))
   \<and> (extract_redirections pre = Inr (c1, so1, sm1, se1, em1)
        \<and> extract_redirections post = Inr (c2, so2, sm2, se2, em2)
        \<and> is_redirection_operator op \<longrightarrow>
      extract_redirections (pre @ op # tgt # post) =
        Inr (c1 @ c2,
             (if so2 \<noteq> None then so2 else if op \<in> {''>'', ''1>'', ''>>'', ''1>>''} then Some tgt else so1),
             (if so2 \<noteq> None then sm2 else if op \<in> {''>'', ''1>''} then ''w''
              else if op \<in> {''>>'', ''1>>''} then ''a'' else sm1),
             (if se2 \<noteq> None then se2 else if op \<in> {''2>'', ''2>>''} then Some tgt else se1),
             (if se2 \<noteq> None then em2 else if op = ''2>'' then ''w''
              else if op = ''2>>'' then ''a'' else em1)))
   \<and> extract_redirections [''echo'', ''hi'', ''>'', ''out.txt'']
        = Inr ([''echo'', ''hi''], Some ''out.txt'', ''w'', None, ''w'')
   \<and> extract_redirections [''>'', ''out.txt'', ''echo'', ''hi'']
        = Inr ([''echo'', ''hi''], Some ''out.txt'', ''w'', None, ''w'')"
proof (intro conjI impI)
  assume "\<forall>t\<in>set ts. \<not> is_redirection_operator t"
  then show "extract_redirections ts = Inr (ts, None, ''w'', None, ''w'')"
    by (simp add: extract_redirections_from extract_from_plain)
next
  assume a: "extract_redirections pre = Inr (c1, so1, sm1, se1, em1)
        \<and> extract_redirections post = Inr (c2, so2, sm2, se2, em2)
        \<and> is_redirection_operator op"
  let ?r1 = "apply_operator op tgt (so1, sm1, se1, em1)"
  from a have "extract_redirections (pre @ op # tgt # post)
                 = extract_from (op # tgt # post) (c1, so1, sm1, se1, em1)"
    by (simp add: extract_redirections_from extract_from_append)
  also from a have "\<dots> = extract_from post (c1 @ [], override ?r1 (None, ''w'', None, ''w''))"
    by (simp add: override_initial)
  also from a have "\<dots> = Inr (c1 @ c2, override ?r1 (so2, sm2, se2, em2))"
    unfolding extract_redirections_from by (intro extract_from_acc) simp
  finally show "extract_redirections (pre @ op # tgt # post) =
        Inr (c1 @ c2,
             (if so2 \<noteq> None then so2 else if op \<in> {''>'', ''1>'', ''>>'', ''1>>''} then Some tgt else so1),
             (if so2 \<noteq> None then sm2 else if op \<in> {''>'', ''1>''} then ''w''
              else if op \<in> {''>>'', ''1>>''} then ''a'' else sm1),
             (if se2 \<noteq> None then se2 else if op \<in> {''2>'', ''2>>''} then Some tgt else se1),
             (if se2 \<noteq> None then em2 else if op = ''2>'' then ''w''
              else if op = ''2>>'' then ''a'' else em1))"
    using a
    by (auto simp: override_def apply_operator_def is_redirection_operator_def
        redirection_operators_def)
next
  show "extract_redirections [''echo'', ''hi'', ''>'', ''out.txt'']
        = Inr ([''echo'', ''hi''], Some ''out.txt'', ''w'', None, ''w'')"
    by (simp add: extract_redirections_from is_redirection_operator_def
        redirection_operators_def apply_operator_def)
next
  show "extract_redirections [''>'', ''out.txt'', ''echo'', ''hi'']
        = Inr ([''echo'', ''hi''], Some ''out.txt'', ''w'', None, ''w'')"
    by (simp add: extract_redirections_from is_redirection_operator_def
        redirection_operators_def apply_operator_def)
qed

theorem extract_redirections_anywhere_witness:
  "\<not> is_redirection_operator ''echo'' \<and> \<not> is_redirection_operator ''hi''
   \<and> extract_redirections [''echo'', ''hi''] = Inr ([''echo'', ''hi''], None, ''w'', None, ''w'')
   \<and> extract_redirections [''echo'', ''a'', ''2>'', ''e1'']
        = Inr ([''echo'', ''a''], None, ''w'', Some ''e1'', ''w'')
   \<and> extract_redirections [''b'', ''>'', ''o2''] = Inr ([''b''], Some ''o2'', ''w'', None, ''w'')
   \<and> is_redirection_operator ''>>''
   \<and> extract_redirections ([''echo'', ''a'', ''2>'', ''e1''] @ ''>>'' # ''o1'' # [''b'', ''>'', ''o2''])
        = Inr ([''echo'', ''a'', ''b''], Some ''o2'', ''w'', Some ''e1'', ''w'')"
proof -
  have p: "\<forall>t\<in>set [''echo'', ''hi'']. \<not> is_redirection_operator t"
    by (simp add: is_redirection_operator_def redirection_operators_def)
  have a: "extract_redirections [''echo'', ''a'', ''2>'', ''e1'']
             = Inr ([''echo'', ''a''], None, ''w'', Some ''e1'', ''w'')"
    by (simp add: extract_redirections_from is_redirection_operator_def
        redirection_operators_def apply_operator_def)
  have b: "extract_redirections [''b'', ''>'', ''o2''] = Inr ([''b''], Some ''o2'', ''w'', None, ''w'')"
    by (simp add: extract_redirections_from is_redirection_operator_def
        redirection_operators_def apply_operator_def)
  have c: "is_redirection_operator ''>>''"
    by (simp add: is_redirection_operator_def redirection_operators_def)
  note t = extract_redirections_anywhere [of "[''echo'', ''hi'']" "[''echo'', ''a'', ''2>'', ''e1'']"
      "[''echo'', ''a'']" None "''w''" "Some ''e1''" "''w''" "[''b'', ''>'', ''o2'']" "[''b'']"
      "Some ''o2''" "''w''" None "''w''" "''>>''" "''o1''"]
  from t p have r1: "extract_redirections [''echo'', ''hi''] = Inr ([''echo'', ''hi''], None, ''w'', None, ''w'')"
    by (elim conjE) (erule mp)
  from t have "extract_redirections [''echo'', ''a'', ''2>'', ''e1'']
                 = Inr ([''echo'', ''a''], None, ''w'', Some ''e1'', ''w'')
               \<and> extract_redirections [''b'', ''>'', ''o2''] = Inr ([''b''], Some ''o2'', ''w'', None, ''w'')
               \<and> is_redirection_operator ''>>'' \<longrightarrow>
      extract_redirections ([''echo'', ''a'', ''2>'', ''e1''] @ ''>>'' # ''o1'' # [''b'', ''>'', ''o2''])
        = Inr ([''echo'', ''a''] @ [''b''], Some ''o2'', ''w'', Some ''e1'', ''w'')"
    by (elim conjE) simp
  with a b c have r2: "extract_redirections ([''echo'', ''a'', ''2>'', ''e1''] @ ''>>'' # ''o1'' # [''b'', ''>'', ''o2''])
        = Inr ([''echo'', ''a''] @ [''b''], Some ''o2'', ''w'', Some ''e1'', ''w'')"
    by blast
  from p a b c r1 r2 show ?thesis
    by (intro conjI) simp_all
qed

section \<open>The tokenizer's behaviour\<close>

lemma lexer_list_AtEOF: "lexer_list AtEOF instream = Inr []"
  by (subst lexer_list.simps) (simp add: read_token_def emit_def)

lemma lexer_list_lex_from: "lexer_list st instream = lex_from st False Between [] instream"
  by (subst lexer_list.simps) (simp add: read_token_def lex_from_def cons_token_def split: sum.splits option.splits)

lemma lex_from_emit:
  "(case emit quoted token st instream of
        Inl e \<Rightarrow> Inl e
      | Inr (None, st', instream') \<Rightarrow> Inr []
      | Inr (Some t, st', instream') \<Rightarrow> cons_token t (lexer_list st' instream'))
   = (if \<not> quoted \<and> token = [] then Inr [] else cons_token token (lexer_list st instream))"
  by (simp add: emit_def)

lemma lex_from_end:
  "lex_from Between quoted escapedstate token [] = (if \<not> quoted \<and> token = [] then Inr [] else Inr [token])"
  "lex_from InWord quoted escapedstate token [] = (if \<not> quoted \<and> token = [] then Inr [] else Inr [token])"
  "lex_from (InQuote q) quoted escapedstate token [] = Inl ValueError"
  "lex_from (InEscape e) quoted escapedstate token [] = Inl ValueError"
  by (simp_all add: lex_from_def lex_from_emit lexer_list_AtEOF cons_token_def)

lemma lex_from_Between:
  "lex_from Between quoted escapedstate token (c # cs) =
     (if c \<in> whitespace then
        (if token \<noteq> [] \<or> quoted then cons_token token (lex_from Between False Between [] cs)
         else lex_from Between quoted escapedstate token cs)
      else if c \<in> commenters then lex_from Between quoted escapedstate token (readline_rest cs)
      else if c \<in> escape then lex_from (InEscape c) quoted InWord token cs
      else if c \<in> quotes then lex_from (InQuote c) quoted escapedstate token cs
      else lex_from InWord quoted escapedstate [c] cs)"
  by (auto simp: lex_from_def lex_from_emit lexer_list_lex_from)

lemma lex_from_InWord:
  "lex_from InWord quoted escapedstate token (c # cs) =
     (if c \<in> whitespace then
        (if token \<noteq> [] \<or> quoted then cons_token token (lex_from Between False Between [] cs)
         else lex_from Between quoted escapedstate token cs)
      else if c \<in> commenters then
        (if token \<noteq> [] \<or> quoted
         then cons_token token (lex_from Between False Between [] (readline_rest cs))
         else lex_from Between quoted escapedstate token (readline_rest cs))
      else if c \<in> quotes then lex_from (InQuote c) quoted escapedstate token cs
      else if c \<in> escape then lex_from (InEscape c) quoted InWord token cs
      else lex_from InWord quoted escapedstate (token @ [c]) cs)"
  by (auto simp: lex_from_def lex_from_emit lexer_list_lex_from)

lemma lex_from_InQuote:
  "lex_from (InQuote q) quoted escapedstate token (c # cs) =
     (if c = q then lex_from InWord True escapedstate token cs
      else if c \<in> escape \<and> q \<in> escapedquotes then lex_from (InEscape c) True (InQuote q) token cs
      else lex_from (InQuote q) True escapedstate (token @ [c]) cs)"
  by (simp add: lex_from_def)

lemma lex_from_InEscape:
  "lex_from (InEscape e) quoted escapedstate token (c # cs) =
     lex_from escapedstate quoted escapedstate
       ((case escapedstate of
           InQuote q \<Rightarrow> if c \<noteq> e \<and> c \<noteq> q then token @ [e] else token
         | _ \<Rightarrow> token) @ [c]) cs"
  by (simp add: lex_from_def)

lemma parse_input_lex_from: "parse_input command = lex_from Between False Between [] command"
  by (simp add: parse_input_def lexer_list_lex_from)

lemma length_readline_rest: "length (readline_rest cs) \<le> length cs"
  by (induction cs) auto

lemma readline_rest_no_newline: "CHR 0x0A \<notin> set cs \<Longrightarrow> readline_rest cs = []"
  by (induction cs) auto

lemma readline_rest_append:
  "CHR 0x0A \<in> set cs \<Longrightarrow> readline_rest (cs @ ys) = readline_rest cs @ ys"
  by (induction cs) auto

lemma foldl_qstep_Commented:
  "foldl qstep Commented cs =
     (if CHR 0x0A \<in> set cs then foldl qstep Unquoted (readline_rest cs) else Commented)"
  by (induction cs) auto

lemma special_chars:
  "c \<in> whitespace \<Longrightarrow> c \<notin> commenters \<and> c \<notin> escape \<and> c \<notin> quotes"
  "c \<in> commenters \<Longrightarrow> c \<notin> escape \<and> c \<notin> quotes"
  "c \<in> escape \<Longrightarrow> c \<notin> quotes"
  by (auto simp: whitespace_def commenters_def escape_def quotes_def)

lemma comment_base:
  assumes "wf_config st e" and "ctx_of st e = Unquoted" and "CHR 0x0A \<notin> set rest"
  shows "lex_from st q e tok (CHR ''#'' # rest) = lex_from st q e tok []"
proof -
  have c: "CHR ''#'' \<in> commenters" "CHR ''#'' \<notin> whitespace"
    by (simp_all add: commenters_def whitespace_def)
  from assms(1,2) consider "st = Between" | "st = InWord"
    by (cases st; cases e) auto
  then show ?thesis
  proof cases
    case 1
    with c assms(3) show ?thesis
      by (simp add: lex_from_Between readline_rest_no_newline)
  next
    case 2
    with c assms(3) show ?thesis
      by (simp add: lex_from_InWord readline_rest_no_newline lex_from_end cons_token_def)
  qed
qed

lemma wf_config_moves:
  assumes "wf_config st e"
  shows "wf_config Between e" and "wf_config InWord e" and "wf_config (InQuote x) e"
  using assms by (cases st; cases e; simp)+

lemma wf_config_escaped:
  assumes "wf_config (InEscape x) e"
  shows "wf_config e e" and "e \<noteq> Between"
  using assms by (cases e; simp)+

lemma suffix_congruence:
  assumes base: "\<And>st q e tok. wf_config st e \<Longrightarrow> ctx_of st e = Unquoted \<Longrightarrow>
                   (st = Between \<longrightarrow> tok = []) \<Longrightarrow> lex_from st q e tok X = lex_from st q e tok Y"
  shows "wf_config st e \<Longrightarrow> foldl qstep (ctx_of st e) pre = Unquoted \<Longrightarrow>
         (st = Between \<longrightarrow> tok = []) \<Longrightarrow>
         lex_from st q e tok (pre @ X) = lex_from st q e tok (pre @ Y)"
proof (induction pre arbitrary: st q e tok rule: length_induct)
  case (1 pre)
  note IH = "1.IH" [rule_format]
  show ?case
  proof (cases pre)
    case Nil
    with "1.prems" show ?thesis
      by (simp add: base)
  next
    case (Cons c cs)
    have len: "length cs < length pre" "length (readline_rest cs) < length pre"
      using Cons length_readline_rest [of cs] by simp_all
    note tk = "1.prems"(3)
    note wf = wf_config_moves [OF "1.prems"(1)]
    show ?thesis
    proof (cases st)
      case AtEOF
      with "1.prems"(1) show ?thesis by simp
    next
      case Between
      from "1.prems"(2) Between Cons have ctx: "foldl qstep (qstep Unquoted c) cs = Unquoted"
        by simp
      consider (ws) "c \<in> whitespace" | (cm) "c \<notin> whitespace" "c \<in> commenters"
        | (es) "c \<notin> whitespace" "c \<notin> commenters" "c \<in> escape"
        | (qu) "c \<notin> whitespace" "c \<notin> commenters" "c \<notin> escape" "c \<in> quotes"
        | (ot) "c \<notin> whitespace" "c \<notin> commenters" "c \<notin> escape" "c \<notin> quotes"
        by blast
      then show ?thesis
      proof cases
        case ws
        with ctx special_chars(1) [OF ws] have u: "foldl qstep (ctx_of Between Between) cs = Unquoted"
          "foldl qstep (ctx_of Between e) cs = Unquoted"
          by simp_all
        from ws Between Cons tk wf IH [OF len(1) _ u(1)] IH [OF len(1) _ u(2)]
        show ?thesis
          by (simp add: lex_from_Between)
      next
        case cm
        with ctx have n: "CHR 0x0A \<in> set cs" and u: "foldl qstep (ctx_of Between e) (readline_rest cs) = Unquoted"
          by (simp_all add: foldl_qstep_Commented split: if_splits)
        from cm Between Cons tk wf n IH [OF len(2) _ u]
        show ?thesis
          by (simp add: lex_from_Between readline_rest_append)
      next
        case es
        with ctx have u: "foldl qstep (ctx_of (InEscape c) InWord) cs = Unquoted"
          by simp
        from es Between Cons tk wf IH [OF len(1) _ u]
        show ?thesis
          by (simp add: lex_from_Between)
      next
        case qu
        with ctx have u: "foldl qstep (ctx_of (InQuote c) e) cs = Unquoted"
          by simp
        from qu Between Cons tk wf IH [OF len(1) _ u]
        show ?thesis
          by (simp add: lex_from_Between)
      next
        case ot
        with ctx have u: "foldl qstep (ctx_of InWord e) cs = Unquoted"
          by simp
        from ot Between Cons tk wf IH [OF len(1) _ u]
        show ?thesis
          by (simp add: lex_from_Between)
      qed
    next
      case InWord
      from "1.prems"(2) InWord Cons have ctx: "foldl qstep (qstep Unquoted c) cs = Unquoted"
        by simp
      consider (ws) "c \<in> whitespace" | (cm) "c \<notin> whitespace" "c \<in> commenters"
        | (qu) "c \<notin> whitespace" "c \<notin> commenters" "c \<in> quotes"
        | (es) "c \<notin> whitespace" "c \<notin> commenters" "c \<notin> quotes" "c \<in> escape"
        | (ot) "c \<notin> whitespace" "c \<notin> commenters" "c \<notin> escape" "c \<notin> quotes"
        by blast
      then show ?thesis
      proof cases
        case ws
        with ctx special_chars(1) [OF ws] have u: "foldl qstep (ctx_of Between Between) cs = Unquoted"
          "foldl qstep (ctx_of Between e) cs = Unquoted"
          by simp_all
        from ws InWord Cons tk wf IH [OF len(1) _ u(1)] IH [OF len(1) _ u(2)]
        show ?thesis
          by (simp add: lex_from_InWord)
      next
        case cm
        with ctx have n: "CHR 0x0A \<in> set cs"
          and u: "foldl qstep (ctx_of Between e) (readline_rest cs) = Unquoted"
             "foldl qstep (ctx_of Between Between) (readline_rest cs) = Unquoted"
          by (simp_all add: foldl_qstep_Commented split: if_splits)
        from cm InWord Cons tk wf n IH [OF len(2) _ u(1)] IH [OF len(2) _ u(2)]
        show ?thesis
          by (simp add: lex_from_InWord readline_rest_append)
      next
        case es
        with ctx have u: "foldl qstep (ctx_of (InEscape c) InWord) cs = Unquoted"
          by simp
        from es InWord Cons tk wf IH [OF len(1) _ u]
        show ?thesis
          by (simp add: lex_from_InWord)
      next
        case qu
        with ctx special_chars(3) [of c] have u: "foldl qstep (ctx_of (InQuote c) e) cs = Unquoted"
          by (cases "c \<in> escape") simp_all
        from qu InWord Cons tk wf IH [OF len(1) _ u]
        show ?thesis
          by (simp add: lex_from_InWord)
      next
        case ot
        with ctx have u: "foldl qstep (ctx_of InWord e) cs = Unquoted"
          by simp
        from ot InWord Cons tk wf IH [OF len(1) _ u]
        show ?thesis
          by (simp add: lex_from_InWord)
      qed
    next
      case (InQuote x)
      from "1.prems"(2) InQuote Cons have ctx: "foldl qstep (qstep (Quoted x) c) cs = Unquoted"
        by simp
      consider (cl) "c = x" | (es) "c \<noteq> x" "c \<in> escape \<and> x \<in> escapedquotes"
        | (ot) "c \<noteq> x" "\<not> (c \<in> escape \<and> x \<in> escapedquotes)"
        by blast
      then show ?thesis
      proof cases
        case cl
        with ctx have u: "foldl qstep (ctx_of InWord e) cs = Unquoted"
          by simp
        from cl InQuote Cons tk wf IH [OF len(1) _ u]
        show ?thesis
          by (simp add: lex_from_InQuote)
      next
        case es
        with ctx have u: "foldl qstep (ctx_of (InEscape c) (InQuote x)) cs = Unquoted"
          by simp
        from es InQuote Cons tk wf IH [OF len(1) _ u]
        show ?thesis
          by (simp add: lex_from_InQuote)
      next
        case ot
        with ctx have u: "foldl qstep (ctx_of (InQuote x) e) cs = Unquoted"
          by auto
        from ot InQuote Cons tk wf IH [OF len(1) _ u]
        show ?thesis
          by (auto simp: lex_from_InQuote)
      qed
    next
      case (InEscape x)
      with "1.prems"(1) have w: "wf_config e e" and nb: "e \<noteq> Between"
        by (simp_all add: wf_config_escaped)
      from InEscape "1.prems"(1) have "ctx_of e e = qstep (ctx_of (InEscape x) e) c"
        by (cases e) simp_all
      with "1.prems"(2) InEscape Cons have u: "foldl qstep (ctx_of e e) cs = Unquoted"
        by simp
      from InEscape Cons nb IH [OF len(1) w u]
      show ?thesis
        by (simp add: lex_from_InEscape)
    qed
  qed
qed

lemma comment_discarded_from:
  assumes "CHR 0x0A \<notin> set rest" and "quote_context pre = Unquoted"
  shows "parse_input (pre @ CHR ''#'' # rest) = parse_input pre"
proof -
  have "lex_from Between False Between [] (pre @ CHR ''#'' # rest)
          = lex_from Between False Between [] (pre @ [])"
  proof (rule suffix_congruence)
    fix st q e tok
    assume "wf_config st e" "ctx_of st e = Unquoted"
    with assms(1) show "lex_from st q e tok (CHR ''#'' # rest) = lex_from st q e tok []"
      by (simp add: comment_base)
  next
    from assms(2) show "foldl qstep (ctx_of Between Between) pre = Unquoted"
      by (simp add: quote_context_def)
  qed simp_all
  then show ?thesis
    by (simp add: parse_input_lex_from)
qed

text \<open>
  C8. An unquoted \<open>#\<close> starts a comment. When the position after \<open>pre\<close> is outside
  quotes, not escaped and not already in a comment, and \<open>rest\<close> has no line feed, the
  tokens of \<open>pre # rest\<close> are the tokens of \<open>pre\<close> alone: the \<open>#\<close> and all that follows
  it on the line produce no token. So \<open>echo a #b\<close> gives \<open>[echo, a]\<close>.
\<close>

theorem comment_discarded:
  "(quote_context pre = Unquoted \<and> CHR 0x0A \<notin> set rest \<longrightarrow>
      parse_input (pre @ CHR ''#'' # rest) = parse_input pre)
   \<and> parse_input ''echo a #b'' = Inr [''echo'', ''a'']"
proof (intro conjI impI)
  assume "quote_context pre = Unquoted \<and> CHR 0x0A \<notin> set rest"
  then show "parse_input (pre @ CHR ''#'' # rest) = parse_input pre"
    by (simp add: comment_discarded_from)
next
  show "parse_input ''echo a #b'' = Inr [''echo'', ''a'']"
    by code_simp
qed

theorem comment_discarded_witness:
  "quote_context ''echo 'x#y' a '' = Unquoted
   \<and> CHR 0x0A \<notin> set ''b c''
   \<and> parse_input (''echo 'x#y' a '' @ CHR ''#'' # ''b c'') = parse_input ''echo 'x#y' a ''
   \<and> parse_input ''echo 'x#y' a '' = Inr [''echo'', ''x#y'', ''a'']"
proof -
  have c: "quote_context ''echo 'x#y' a '' = Unquoted"
    by code_simp
  have n: "CHR 0x0A \<notin> set ''b c''"
    by simp
  from c n comment_discarded [of "''echo 'x#y' a ''" "''b c''"]
  have e: "parse_input (''echo 'x#y' a '' @ CHR ''#'' # ''b c'') = parse_input ''echo 'x#y' a ''"
    by blast
  have v: "parse_input ''echo 'x#y' a '' = Inr [''echo'', ''x#y'', ''a'']"
    by code_simp
  from c n e v show ?thesis
    by (intro conjI)
qed

lemma emit_nonempty: "token \<noteq> [] \<Longrightarrow> emit q token st instream = emit q' token st instream"
  by (simp add: emit_def)

lemma quoted_flag_irrelevant:
  "token \<noteq> [] \<Longrightarrow> wf_config st e \<Longrightarrow>
   read_token_loop st q e token instream = read_token_loop st q' e token instream"
proof (induction st q e token instream rule: read_token_loop.induct)
  case (1 quoted escapedstate token instream)
  then show ?case by simp
next
  case (2 quoted escapedstate token)
  then show ?case by (simp add: emit_nonempty [of token quoted _ _ q'])
next
  case (3 quoted escapedstate token nextchar rest)
  note wf = wf_config_moves [OF "3.prems"(2)]
  from 3 wf show ?case by (simp add: emit_nonempty [of token quoted _ _ q'])
next
  case (4 x quoted escapedstate token)
  then show ?case by simp
next
  case (5 x quoted escapedstate token nextchar rest)
  then show ?case by simp
next
  case (6 x quoted escapedstate token)
  then show ?case by simp
next
  case (7 x quoted escapedstate token nextchar rest)
  from "7.prems"(2) have "wf_config escapedstate escapedstate"
    by (rule wf_config_escaped)
  with 7 show ?case by simp
next
  case (8 quoted escapedstate token)
  then show ?case by (simp add: emit_nonempty [of token quoted _ _ q'])
next
  case (9 quoted escapedstate token nextchar rest)
  note wf = wf_config_moves [OF "9.prems"(2)]
  from 9 wf show ?case by (simp add: emit_nonempty [of token quoted _ _ q'])
qed

lemma lex_from_quoted_flag:
  "token \<noteq> [] \<Longrightarrow> wf_config st e \<Longrightarrow> lex_from st q e token instream = lex_from st q' e token instream"
  by (simp add: lex_from_def quoted_flag_irrelevant [where q = q and q' = q'])

lemma quoted_run:
  "\<forall>c\<in>set s. c \<noteq> Q \<and> c \<notin> escape \<Longrightarrow>
   lex_from (InQuote Q) q e tok (s @ Q # post) = lex_from InWord True e (tok @ s) post"
  by (induction s arbitrary: tok q) (simp_all add: lex_from_InQuote)

lemma plain_run:
  "\<forall>c\<in>set s. c \<notin> whitespace \<and> c \<notin> commenters \<and> c \<notin> escape \<and> c \<notin> quotes \<Longrightarrow>
   lex_from InWord q e tok (s @ post) = lex_from InWord q e (tok @ s) post"
  by (induction s arbitrary: tok) (simp_all add: lex_from_InWord)

lemma operator_chars:
  assumes "is_redirection_operator op"
  shows "op \<noteq> []"
    and "\<forall>c\<in>set op. c \<notin> whitespace \<and> c \<notin> commenters \<and> c \<notin> escape \<and> c \<notin> quotes"
  using assms
  by (auto simp: is_redirection_operator_def redirection_operators_def whitespace_def
      commenters_def escape_def quotes_def)

lemma quoted_operator_base:
  assumes op: "is_redirection_operator op" and Q: "Q \<in> quotes"
    and wf: "wf_config st e" and ctx: "ctx_of st e = Unquoted" and tk: "st = Between \<longrightarrow> tok = ([]::string)"
  shows "lex_from st q e tok ([Q] @ op @ [Q] @ post) = lex_from st q e tok (op @ post)"
proof -
  note oc = operator_chars [OF op]
  from Q have Qs: "Q \<notin> whitespace" "Q \<notin> commenters" "Q \<notin> escape"
    by (auto simp: quotes_def whitespace_def commenters_def escape_def)
  from oc(2) Q have inq: "\<forall>c\<in>set op. c \<noteq> Q \<and> c \<notin> escape"
    by auto
  from wf ctx consider "st = Between" | "st = InWord"
    by (cases st; cases e) auto
  then show ?thesis
  proof cases
    case 1
    with tk have t: "tok = []" by simp
    from oc(1) obtain c s where cs: "op = c # s" by (cases op) auto
    with oc(2) have c: "c \<notin> whitespace" "c \<notin> commenters" "c \<notin> escape" "c \<notin> quotes"
      and s: "\<forall>c\<in>set s. c \<notin> whitespace \<and> c \<notin> commenters \<and> c \<notin> escape \<and> c \<notin> quotes"
      by simp_all
    have "lex_from Between q e [] ([Q] @ op @ [Q] @ post) = lex_from (InQuote Q) q e [] (op @ Q # post)"
      using Q Qs by (simp add: lex_from_Between)
    also have "\<dots> = lex_from InWord True e op post"
      using quoted_run [OF inq, where q = q and e = e and tok = "[]" and post = post] by simp
    also have "\<dots> = lex_from InWord q e op post"
      using oc(1) wf_config_moves(2) [OF wf] by (intro lex_from_quoted_flag) simp_all
    also have "\<dots> = lex_from InWord q e ([c] @ s) post"
      by (simp add: cs)
    also have "\<dots> = lex_from InWord q e [c] (s @ post)"
      using plain_run [OF s, of q e "[c]" post] by simp
    also have "\<dots> = lex_from Between q e [] (op @ post)"
      using c by (simp add: cs lex_from_Between)
    finally show ?thesis
      using 1 t by simp
  next
    case 2
    have "lex_from InWord q e tok ([Q] @ op @ [Q] @ post) = lex_from (InQuote Q) q e tok (op @ Q # post)"
      using Q Qs by (simp add: lex_from_InWord)
    also have "\<dots> = lex_from InWord True e (tok @ op) post"
      using quoted_run [OF inq, where q = q and e = e and tok = tok and post = post] by simp
    also have "\<dots> = lex_from InWord q e (tok @ op) post"
      using oc(1) wf_config_moves(2) [OF wf] by (intro lex_from_quoted_flag) simp_all
    also have "\<dots> = lex_from InWord q e tok (op @ post)"
      using plain_run [OF oc(2), of q e tok post] by simp
    finally show ?thesis
      using 2 by simp
  qed
qed

lemma quoted_operator_tokens:
  assumes "quote_context pre = Unquoted" and "is_redirection_operator op" and "Q \<in> quotes"
  shows "parse_input (pre @ [Q] @ op @ [Q] @ post) = parse_input (pre @ op @ post)"
proof -
  have "lex_from Between False Between [] (pre @ ([Q] @ op @ [Q] @ post))
          = lex_from Between False Between [] (pre @ (op @ post))"
  proof (rule suffix_congruence)
    fix st q e tok
    assume "wf_config st e" "ctx_of st e = Unquoted" "st = Between \<longrightarrow> tok = ([]::string)"
    with assms(2,3) show "lex_from st q e tok ([Q] @ op @ [Q] @ post) = lex_from st q e tok (op @ post)"
      by (rule quoted_operator_base)
  next
    from assms(1) show "foldl qstep (ctx_of Between Between) pre = Unquoted"
      by (simp add: quote_context_def)
  qed simp_all
  then show ?thesis
    by (simp add: parse_input_lex_from)
qed

lemma command_has_no_operator:
  assumes "extract_redirections tokens = Inr (command, so, sm, se, em)"
  shows "\<forall>t\<in>set command. \<not> is_redirection_operator t"
  using assms extract_from_no_operator [of tokens "[]" "(None, ''w'', None, ''w'')" command "(so, sm, se, em)"]
  by (simp add: extract_redirections_from)

text \<open>
  C9. Quotes do not protect a redirection operator. When the position after \<open>pre\<close> is
  outside quotes, an operator written in single or double quotes gives the same tokens
  as the operator written bare, so the extractor sees the same token list for both
  lines. Whatever the line, no token of the residual command the extractor returns is
  a redirection operator: no command gets a bare \<open>>\<close> as an argument. The line
  \<open>echo '>' f\<close> has the tokens \<open>[echo, >, f]\<close>, which give the command \<open>[echo]\<close> and
  the stdout target \<open>f\<close>.
\<close>

theorem quoted_operator_redirects:
  "(quote_context pre = Unquoted \<and> is_redirection_operator op \<and> Q \<in> quotes \<longrightarrow>
      parse_input (pre @ [Q] @ op @ [Q] @ post) = parse_input (pre @ op @ post))
   \<and> (parse_input line = Inr tokens
        \<and> extract_redirections tokens = Inr (command, so, sm, se, em) \<longrightarrow>
      (\<forall>t\<in>set command. \<not> is_redirection_operator t))
   \<and> parse_input ''echo '>' f'' = Inr [''echo'', ''>'', ''f'']
   \<and> extract_redirections [''echo'', ''>'', ''f''] = Inr ([''echo''], Some ''f'', ''w'', None, ''w'')"
proof (intro conjI impI)
  assume "quote_context pre = Unquoted \<and> is_redirection_operator op \<and> Q \<in> quotes"
  then show "parse_input (pre @ [Q] @ op @ [Q] @ post) = parse_input (pre @ op @ post)"
    using quoted_operator_tokens [of pre op Q post] by blast
next
  assume "parse_input line = Inr tokens \<and> extract_redirections tokens = Inr (command, so, sm, se, em)"
  then show "\<forall>t\<in>set command. \<not> is_redirection_operator t"
    using command_has_no_operator by blast
next
  show "parse_input ''echo '>' f'' = Inr [''echo'', ''>'', ''f'']"
    by code_simp
next
  show "extract_redirections [''echo'', ''>'', ''f''] = Inr ([''echo''], Some ''f'', ''w'', None, ''w'')"
    by (simp add: extract_redirections_from is_redirection_operator_def redirection_operators_def
        apply_operator_def)
qed

theorem quoted_operator_redirects_witness:
  "quote_context ''echo '' = Unquoted
   \<and> is_redirection_operator ''>>''
   \<and> CHR 0x22 \<in> quotes
   \<and> parse_input (''echo '' @ [CHR 0x22] @ ''>>'' @ [CHR 0x22] @ '' f'') = parse_input (''echo '' @ ''>>'' @ '' f'')
   \<and> parse_input (''echo '' @ ''>>'' @ '' f'') = Inr [''echo'', ''>>'', ''f'']
   \<and> parse_input ''echo '>' f'' = Inr [''echo'', ''>'', ''f'']
   \<and> extract_redirections [''echo'', ''>'', ''f''] = Inr ([''echo''], Some ''f'', ''w'', None, ''w'')
   \<and> \<not> is_redirection_operator ''echo''"
proof -
  have c: "quote_context ''echo '' = Unquoted"
    by code_simp
  have o: "is_redirection_operator ''>>''"
    by (simp add: is_redirection_operator_def redirection_operators_def)
  have q: "CHR 0x22 \<in> quotes"
    by (simp add: quotes_def)
  note t = quoted_operator_redirects [of "''echo ''" "''>>''" "CHR 0x22" "'' f''" "''echo '>' f''"
      "[''echo'', ''>'', ''f'']" "[''echo'']" "Some ''f''" "''w''" None "''w''"]
  from t c o q have e: "parse_input (''echo '' @ [CHR 0x22] @ ''>>'' @ [CHR 0x22] @ '' f'')
                          = parse_input (''echo '' @ ''>>'' @ '' f'')"
    by blast
  from t have p: "parse_input ''echo '>' f'' = Inr [''echo'', ''>'', ''f'']"
    and x: "extract_redirections [''echo'', ''>'', ''f''] = Inr ([''echo''], Some ''f'', ''w'', None, ''w'')"
    by (blast+)
  from t p x have "\<forall>t\<in>set [''echo'']. \<not> is_redirection_operator t"
    by blast
  then have n: "\<not> is_redirection_operator ''echo''"
    by simp
  have v: "parse_input (''echo '' @ ''>>'' @ '' f'') = Inr [''echo'', ''>>'', ''f'']"
    by code_simp
  from c o q e v p x n show ?thesis
    by (intro conjI)
qed

section \<open>The read loop's bookkeeping\<close>

lemma py_strip_empty_iff: "py_strip s = [] \<longleftrightarrow> (\<forall>c\<in>set s. py_isspace c)"
proof -
  have "py_strip s = [] \<longleftrightarrow> (\<forall>c\<in>set (dropWhile py_isspace s). py_isspace c)"
    by (simp add: py_strip_def dropWhile_eq_Nil_conv)
  also have "\<dots> \<longleftrightarrow> dropWhile py_isspace s = []"
  proof
    assume a: "\<forall>c\<in>set (dropWhile py_isspace s). py_isspace c"
    show "dropWhile py_isspace s = []"
    proof (rule ccontr)
      assume n: "dropWhile py_isspace s \<noteq> []"
      then have "\<not> py_isspace (hd (dropWhile py_isspace s))"
        by (rule hd_dropWhile)
      with a n show False by simp
    qed
  next
    assume e: "dropWhile py_isspace s = []"
    show "\<forall>c\<in>set (dropWhile py_isspace s). py_isspace c"
      unfolding e by simp
  qed
  also have "\<dots> \<longleftrightarrow> (\<forall>c\<in>set s. py_isspace c)"
    by (simp add: dropWhile_eq_Nil_conv)
  finally show ?thesis .
qed

text \<open>
  C10. The read loop adds only non-blank lines to the history: a line that is empty or
  consists of white space only leaves the whole state as it was, and when the
  bookkeeping of a line changes the history, it has added exactly that line at the end
  and the line holds a character that is not white space.
\<close>

theorem record_command_nonblank:
  "((\<forall>c\<in>set command. py_isspace c) \<longrightarrow> record_command command w = w)
   \<and> (history (record_command command w) \<noteq> history w \<longrightarrow>
        history (record_command command w) = history w @ [command]
        \<and> (\<exists>c\<in>set command. \<not> py_isspace c))"
  by (auto simp: record_command_def py_strip_empty_iff)

theorem record_command_nonblank_witness:
  "py_isspace (CHR '' '') \<and> record_command '' '' example_world = example_world
   \<and> history (record_command ''echo hi'' example_world) \<noteq> history example_world
   \<and> history (record_command ''echo hi'' example_world) = history example_world @ [''echo hi'']
   \<and> \<not> py_isspace (CHR ''e'')"
proof -
  have b: "\<forall>c\<in>set '' ''. py_isspace c"
    by (simp add: py_isspace_def)
  have n: "history (record_command ''echo hi'' example_world) \<noteq> history example_world"
    by (simp add: record_command_def py_strip_def py_isspace_def)
  from b record_command_nonblank [of "'' ''" example_world]
  have r1: "record_command '' '' example_world = example_world"
    by blast
  from n record_command_nonblank [of "''echo hi''" example_world]
  have r2: "history (record_command ''echo hi'' example_world) = history example_world @ [''echo hi'']"
    by blast
  from r1 r2 n show ?thesis
    by (simp add: py_isspace_def)
qed

section \<open>Lines the dispatcher cannot handle\<close>

lemma parse_input_empty: "parse_input [] = Inr []"
  by code_simp

lemma parse_input_blank: "parse_input ''   '' = Inr []"
  by code_simp

lemma parse_input_dangling: "parse_input ''echo hi >'' = Inr [''echo'', ''hi'', ''>'']"
  by code_simp

lemma extract_dangling_example: "extract_redirections [''echo'', ''hi'', ''>''] = Inl IndexError"
  by (simp add: extract_redirections_from is_redirection_operator_def redirection_operators_def)

lemma handle_command_no_tokens:
  "parse_input command = Inr [] \<Longrightarrow> handle_command command w = (Raised IndexError, w)"
  by (simp add: handle_command_def extract_redirections_from py_index_def)

lemma extract_redirections_dangling:
  "extract_redirections pre = Inr x \<Longrightarrow> is_redirection_operator op \<Longrightarrow>
   extract_redirections (pre @ [op]) = Inl IndexError"
  by (cases x) (simp add: extract_redirections_from extract_from_dangling)

lemma handle_command_dangling:
  "parse_input command = Inr (pre @ [op]) \<Longrightarrow> extract_redirections pre = Inr x \<Longrightarrow>
   is_redirection_operator op \<Longrightarrow> handle_command command w = (Raised IndexError, w)"
  by (simp add: handle_command_def extract_redirections_dangling)

lemma read_loop_stops:
  "handle_command command (record_command command (w\<lparr>terminal := terminal w @ ''$ ''\<rparr>)) = (Raised e, w')
   \<Longrightarrow> read_loop (command # rest) w = (e, w')"
  by simp

text \<open>
  C1. What \<open>handle_command\<close> does on a line without tokens: for the empty line and
  for a line of blanks, \<open>commandArr[0]\<close> raises \<open>IndexError\<close> with the state unchanged,
  and the read loop, which catches nothing, ends with that exception after it has
  written the prompt.
\<close>

theorem empty_line_raises:
  "handle_command [] w = (Raised IndexError, w)
   \<and> handle_command ''   '' w = (Raised IndexError, w)
   \<and> read_loop ([] # rest) w = (IndexError, w\<lparr>terminal := terminal w @ ''$ ''\<rparr>)"
  by (simp add: handle_command_def parse_input_empty parse_input_blank extract_redirections_from
      py_index_def record_command_def py_strip_def)

text \<open>
  C2. What a redirection operator without a target does: on the tokens of
  \<open>echo hi >\<close> the extractor raises \<open>IndexError\<close> at \<open>tokens[i+1]\<close>; \<open>handle_command\<close>
  passes the exception on with the state unchanged, and the read loop ends with it
  instead of reading the next line.
\<close>

theorem dangling_operator_raises:
  "extract_redirections [''echo'', ''hi'', ''>''] = Inl IndexError
   \<and> handle_command ''echo hi >'' w = (Raised IndexError, w)
   \<and> fst (read_loop (''echo hi >'' # rest) w) = IndexError"
  by (simp add: handle_command_def parse_input_dangling extract_dangling_example)

section \<open>The builtins' behaviour\<close>

lemma cwd_print [simp]: "cwd (print s w) = cwd w"
  by (simp add: print_def write_stream_def write_file_def split: stream.splits)

text \<open>
  C7. When \<open>os.chdir\<close> fails on the argument (the home directory when the argument is
  \<open>~\<close>), \<open>cd\<close> returns normally after it has printed
  \<open>cd: <path>: No such file or directory\<close> for that path, the working directory is
  the one before, and a following \<open>pwd\<close> prints it. With the argument \<open>~\<close> the
  directory changed to is the one \<open>os.chdir\<close> reaches from the home directory.
\<close>

theorem change_directory_failure:
  "(chdir_target w (cwd w) (if input = ''~'' then home w else input) = None \<longrightarrow>
      change_directory input w =
        (Returned, print (''cd: '' @ (if input = ''~'' then home w else input)
                            @ '': No such file or directory'') w)
      \<and> cwd (snd (change_directory input w)) = cwd w
      \<and> get_cwd x (snd (change_directory input w))
          = (Returned, print (cwd w) (snd (change_directory input w))))
   \<and> (chdir_target w (cwd w) (home w) = Some d \<longrightarrow>
        change_directory ''~'' w = (Returned, w\<lparr>cwd := d\<rparr>))"
  by (simp add: change_directory_def os_chdir_def is_OSError_def get_cwd_def Let_def)

theorem change_directory_failure_witness:
  "chdir_target example_world (cwd example_world) ''/nonexistent/path'' = None
   \<and> change_directory ''/nonexistent/path'' example_world
       = (Returned, example_world\<lparr>terminal := ''cd: /nonexistent/path: No such file or directory'' @ [CHR 0x0A]\<rparr>)
   \<and> cwd (snd (change_directory ''/nonexistent/path'' example_world)) = ''/home/user''
   \<and> chdir_target (example_world\<lparr>cwd := ''/tmp''\<rparr>) ''/tmp'' (home example_world) = Some ''/home/user''
   \<and> change_directory ''~'' (example_world\<lparr>cwd := ''/tmp''\<rparr>) = (Returned, example_world\<lparr>cwd := ''/home/user''\<rparr>)"
proof -
  have f: "chdir_target example_world (cwd example_world)
             (if ''/nonexistent/path'' = ''~'' then home example_world else ''/nonexistent/path'') = None"
    by (simp add: example_world_def)
  have h: "chdir_target (example_world\<lparr>cwd := ''/tmp''\<rparr>) (cwd (example_world\<lparr>cwd := ''/tmp''\<rparr>))
             (home (example_world\<lparr>cwd := ''/tmp''\<rparr>)) = Some ''/home/user''"
    by (simp add: example_world_def)
  from f change_directory_failure [of example_world "''/nonexistent/path''"]
  have q1: "change_directory ''/nonexistent/path'' example_world =
        (Returned, print (''cd: '' @ (if ''/nonexistent/path'' = ''~'' then home example_world else ''/nonexistent/path'')
                            @ '': No such file or directory'') example_world)"
    and q2: "cwd (snd (change_directory ''/nonexistent/path'' example_world)) = cwd example_world"
    by (blast+)
  from h change_directory_failure [of "example_world\<lparr>cwd := ''/tmp''\<rparr>" "''~''" _ "''/home/user''"]
  have q3: "change_directory ''~'' (example_world\<lparr>cwd := ''/tmp''\<rparr>)
             = (Returned, example_world\<lparr>cwd := ''/tmp''\<rparr>\<lparr>cwd := ''/home/user''\<rparr>)"
    by blast
  from q1 have r1: "change_directory ''/nonexistent/path'' example_world
       = (Returned, example_world\<lparr>terminal := ''cd: /nonexistent/path: No such file or directory'' @ [CHR 0x0A]\<rparr>)"
    by (simp add: print_def write_stream_def example_world_def)
  from q2 have r2: "cwd (snd (change_directory ''/nonexistent/path'' example_world)) = ''/home/user''"
    by (simp add: example_world_def)
  from q3 have r3: "change_directory ''~'' (example_world\<lparr>cwd := ''/tmp''\<rparr>) = (Returned, example_world\<lparr>cwd := ''/home/user''\<rparr>)"
    by simp
  from f h r1 r2 r3 show ?thesis
    by simp
qed

lemma history_write_file [simp]: "history (write_file p t w) = history w"
  by (simp add: write_file_def)

lemma write_file_write_file:
  "write_file p b (write_file p a w) = write_file p (a @ b) w"
  by (simp add: write_file_def file_content_def)

lemma unlines_Cons: "unlines (l # ls) = l @ [CHR 0x0A] @ unlines ls"
  by (simp add: unlines_def)

lemma write_history_items_all:
  "\<forall>i\<in>set idxs. 1 \<le> i \<and> i \<le> length (history w) \<Longrightarrow> files w path \<noteq> None \<Longrightarrow>
   write_history_items path idxs w
     = (Returned, write_file path (unlines (map (\<lambda>i. history w ! (i - 1)) idxs)) w)"
proof (induction idxs arbitrary: w)
  case Nil
  then show ?case
    by (auto simp: write_file_def file_content_def unlines_def fun_upd_idem)
next
  case (Cons i idxs)
  let ?w = "write_file path (history w ! (i - 1) @ [CHR 0x0A]) w"
  from Cons.prems have item: "readline_get_history_item w i = Some (history w ! (i - 1))"
    by (simp add: readline_get_history_item_def)
  from Cons.prems have "\<forall>i\<in>set idxs. 1 \<le> i \<and> i \<le> length (history ?w)" "files ?w path \<noteq> None"
    by (simp_all add: write_file_def)
  from Cons.IH [OF this] item show ?case
    by (simp add: write_file_write_file unlines_Cons)
qed

lemma map_history_range:
  "map (\<lambda>i. h ! (i - 1)) [Suc a..<Suc (length h)] = drop a h"
proof -
  have "map (\<lambda>i. h ! (i - 1)) [Suc a..<Suc (length h)] = map (\<lambda>i. h ! (i - 1)) (map Suc [a..<length h])"
    by (simp only: map_Suc_upt)
  also have "\<dots> = map ((!) h) [a..<length h]"
    by simp
  also have "\<dots> = drop a h"
    by (rule nth_equalityI) simp_all
  finally show ?thesis .
qed

lemma get_history_append:
  assumes "py_split (py_strip input) = [''-a'', path]" and "can_open w path"
  shows "get_history input w =
           (Returned, w\<lparr>files := (files w)(path \<mapsto>
                          file_content w path @ unlines (drop (last_appended_index w) (history w))),
                        last_appended_index := length (history w)\<rparr>)"
proof -
  let ?w1 = "w\<lparr>files := (files w)(path \<mapsto> file_content w path)\<rparr>"
  from assms(2) have o: "open_file path ''a'' w = Inr ?w1"
    by (simp add: open_file_def)
  have "write_history_items path [last_appended_index w + 1..<length (history w) + 1] ?w1
          = (Returned, write_file path
               (unlines (map (\<lambda>i. history ?w1 ! (i - 1)) [last_appended_index w + 1..<length (history w) + 1])) ?w1)"
    by (rule write_history_items_all) auto
  moreover have "map (\<lambda>i. history ?w1 ! (i - 1)) [last_appended_index w + 1..<length (history w) + 1]
                   = drop (last_appended_index w) (history w)"
    using map_history_range [of "history w" "last_appended_index w"] by (simp del: upt_Suc)
  ultimately have "write_history_items path [last_appended_index w + 1..<length (history w) + 1] ?w1
          = (Returned, write_file path (unlines (drop (last_appended_index w) (history w))) ?w1)"
    by (simp only:)
  with assms(1) o show ?thesis
    by (simp add: get_history_def Let_def write_file_def file_content_def del: upt_Suc)
qed

text \<open>
  C6. For an argument string that splits into \<open>-a\<close> and a path that can be opened,
  \<open>history -a\<close> returns normally; the file then holds what it held before, followed by
  the history entries with index above \<open>last_appended_index\<close>, in order and each with a
  line feed, and \<open>last_appended_index\<close> is the length of the history. A second call
  right after it, with no entry added in between, returns the state unchanged: it
  appends nothing.
\<close>

theorem history_append_incremental:
  assumes "py_split (py_strip input) = [''-a'', path]" and "can_open w path"
  shows "get_history input w =
           (Returned, w\<lparr>files := (files w)(path \<mapsto>
                          file_content w path @ unlines (drop (last_appended_index w) (history w))),
                        last_appended_index := length (history w)\<rparr>)
         \<and> get_history input (snd (get_history input w)) = (Returned, snd (get_history input w))"
proof -
  let ?w' = "w\<lparr>files := (files w)(path \<mapsto>
                          file_content w path @ unlines (drop (last_appended_index w) (history w))),
                        last_appended_index := length (history w)\<rparr>"
  have 1: "get_history input w = (Returned, ?w')"
    using assms by (rule get_history_append)
  from assms(2) have "can_open ?w' path" by simp
  with assms(1) have "get_history input ?w' =
           (Returned, ?w'\<lparr>files := (files ?w')(path \<mapsto>
                          file_content ?w' path @ unlines (drop (last_appended_index ?w') (history ?w'))),
                        last_appended_index := length (history ?w')\<rparr>)"
    by (rule get_history_append)
  also have "\<dots> = (Returned, ?w')"
    by (simp add: file_content_def unlines_def)
  finally show ?thesis
    using 1 by simp
qed

lemma split_append_args: "py_split (py_strip ''-a h.txt'') = [''-a'', ''h.txt'']"
  by code_simp

theorem history_append_incremental_witness:
  "py_split (py_strip ''-a h.txt'') = [''-a'', ''h.txt'']
   \<and> can_open (example_world\<lparr>history := [''ls'', ''pwd'', ''cd /tmp''], last_appended_index := 1\<rparr>) ''h.txt''
   \<and> files (snd (get_history ''-a h.txt''
         (example_world\<lparr>history := [''ls'', ''pwd'', ''cd /tmp''], last_appended_index := 1\<rparr>))) ''h.txt''
       = Some (''pwd'' @ [CHR 0x0A] @ ''cd /tmp'' @ [CHR 0x0A])
   \<and> last_appended_index (snd (get_history ''-a h.txt''
         (example_world\<lparr>history := [''ls'', ''pwd'', ''cd /tmp''], last_appended_index := 1\<rparr>))) = 3
   \<and> get_history ''-a h.txt'' (snd (get_history ''-a h.txt''
         (example_world\<lparr>history := [''ls'', ''pwd'', ''cd /tmp''], last_appended_index := 1\<rparr>)))
       = (Returned, snd (get_history ''-a h.txt''
         (example_world\<lparr>history := [''ls'', ''pwd'', ''cd /tmp''], last_appended_index := 1\<rparr>)))"
proof -
  let ?w = "example_world\<lparr>history := [''ls'', ''pwd'', ''cd /tmp''], last_appended_index := 1\<rparr>"
  have c: "can_open ?w ''h.txt''"
    by (simp add: example_world_def)
  note t = history_append_incremental [OF split_append_args c]
  from t have a: "get_history ''-a h.txt'' ?w =
           (Returned, ?w\<lparr>files := (files ?w)(''h.txt'' \<mapsto>
                          file_content ?w ''h.txt'' @ unlines (drop (last_appended_index ?w) (history ?w))),
                        last_appended_index := length (history ?w)\<rparr>)"
    by (rule conjunct1)
  from t have b: "get_history ''-a h.txt'' (snd (get_history ''-a h.txt'' ?w))
                    = (Returned, snd (get_history ''-a h.txt'' ?w))"
    by (rule conjunct2)
  have f: "files (snd (get_history ''-a h.txt'' ?w)) ''h.txt''
             = Some (''pwd'' @ [CHR 0x0A] @ ''cd /tmp'' @ [CHR 0x0A])"
    unfolding a by (simp add: example_world_def file_content_def unlines_def)
  have l: "last_appended_index (snd (get_history ''-a h.txt'' ?w)) = 3"
    unfolding a by simp
  from split_append_args c f l b show ?thesis
    by (intro conjI)
qed

text \<open>
  Through the read loop the line \<open>history -a h.txt\<close> is recorded before it is
  dispatched, so it is an entry of its own: typed twice in a row on an empty history,
  each call appends the line just typed.
\<close>

lemma parse_input_history_append:
  "parse_input ''history -a h.txt'' = Inr [''history'', ''-a'', ''h.txt'']"
  by code_simp

lemma extract_history_append:
  "extract_redirections [''history'', ''-a'', ''h.txt'']
     = Inr ([''history'', ''-a'', ''h.txt''], None, ''w'', None, ''w'')"
  by (simp add: extract_redirections_from is_redirection_operator_def redirection_operators_def)

lemma handle_history_append:
  "can_open w ''h.txt'' \<Longrightarrow>
   handle_command ''history -a h.txt'' w =
     (Returned, w\<lparr>files := (files w)(''h.txt'' \<mapsto>
                    file_content w ''h.txt'' @ unlines (drop (last_appended_index w) (history w))),
                  last_appended_index := length (history w)\<rparr>)"
  by (simp add: handle_command_def parse_input_history_append extract_history_append py_index_def
      builtin_commands_def call_builtin_def truthy_def get_history_append [OF split_append_args])

lemma history_append_twice_through_loop:
  "files (snd (read_loop [''history -a h.txt'', ''history -a h.txt''] example_world)) ''h.txt''
     = Some (''history -a h.txt'' @ [CHR 0x0A] @ ''history -a h.txt'' @ [CHR 0x0A])"
proof -
  have s: "py_strip ''history -a h.txt'' \<noteq> []"
    by code_simp
  show ?thesis
    by (simp add: record_command_def s handle_history_append example_world_def file_content_def
        unlines_def)
qed

lemma decimal_not_space: "is_decimal_char c \<Longrightarrow> \<not> py_isspace c"
  by (auto simp: is_decimal_char_def py_isspace_def)

lemma py_strip_id:
  assumes "s \<noteq> []" and "\<not> py_isspace (hd s)" and "\<not> py_isspace (last s)"
  shows "py_strip s = s"
proof -
  from assms have "dropWhile py_isspace s = s"
    by (simp add: dropWhile_eq_self_iff)
  moreover from assms have "dropWhile py_isspace (rev s) = rev s"
    by (simp add: dropWhile_eq_self_iff hd_rev)
  ultimately show ?thesis
    by (simp add: py_strip_def)
qed

lemma py_strip_decimal:
  assumes "s \<noteq> []" and "list_all is_decimal_char s"
  shows "py_strip s = s"
proof (rule py_strip_id [OF assms(1)])
  from assms have "is_decimal_char (hd s)" "is_decimal_char (last s)"
    by (simp_all add: list_all_iff)
  then show "\<not> py_isspace (hd s)" "\<not> py_isspace (last s)"
    by (simp_all add: decimal_not_space)
qed

lemma exit_shell_decimal:
  assumes "s \<noteq> []" and "list_all is_decimal_char s"
    and "write_to_history_file w = (Returned, w')"
  shows "exit_shell s w
           = (Raised (SystemExit (int (foldl (\<lambda>n c. 10 * n + (of_char c - 48)) 0 s))), w')"
proof -
  from assms(2) have "list_all is_digit_char s"
    by (simp add: list_all_iff is_digit_char_def)
  with assms show ?thesis
    by (simp add: exit_shell_def py_isdigit_def py_int_def py_strip_decimal)
qed

lemma exit_shell_not_digit:
  assumes "\<not> py_isdigit (py_strip s)" and "write_to_history_file w = (Returned, w')"
  shows "exit_shell s w = (Raised (SystemExit 0), w')"
  using assms by (simp add: exit_shell_def)

lemma write_to_history_file_flush:
  assumes "environ w ''HISTFILE'' = Some histfile" and "histfile \<noteq> []"
    and "files w histfile = Some content" and "can_open w histfile"
    and "initial_history_length w < length (history w)"
  shows "write_to_history_file w =
           (Returned, w\<lparr>files := (files w)(histfile \<mapsto>
              unlines (last_n history_length (file_lines (content @
                unlines (last_n (length (history w) - initial_history_length w) (history w))))))\<rparr>)"
  using assms
  by (simp add: write_to_history_file_def readline_append_history_file_def Let_def nat_diff_distrib')

lemma parse_input_exit: "parse_input (''exit '' @ [CHR 0xB2]) = Inr [''exit'', [CHR 0xB2]]"
  by code_simp

lemma extract_exit: "extract_redirections [''exit'', [CHR 0xB2]] = Inr ([''exit'', [CHR 0xB2]], None, ''w'', None, ''w'')"
  by (simp add: extract_redirections_from is_redirection_operator_def redirection_operators_def)

lemma isdigit_superscript: "py_isdigit (py_strip [CHR 0xB2])" "py_int [CHR 0xB2] = Inl ValueError"
  by (simp_all add: py_isdigit_def py_strip_def py_isspace_def is_digit_char_def py_int_def
      is_decimal_char_def)

text \<open>
  C5. Where \<open>exit\<close> does not end the process with the status the argument asks for.
  The superscript two is a digit for \<open>isdigit\<close> and no decimal numeral for \<open>int\<close>: with
  no \<open>HISTFILE\<close> set, \<open>exit_shell\<close> raises \<open>ValueError\<close> on it instead of
  \<open>SystemExit\<close>, also when called through \<open>handle_command\<close>. And with \<open>HISTFILE\<close>
  naming a file that does not exist yet, \<open>exit 3\<close> raises the \<open>FileNotFoundError\<close> of
  \<open>readline.append_history_file\<close>: nothing is flushed and \<open>sys.exit\<close> is not reached.
\<close>

theorem exit_shell_digit_not_decimal:
  "exit_shell [CHR 0xB2] (w\<lparr>environ := Map.empty\<rparr>) = (Raised ValueError, w\<lparr>environ := Map.empty\<rparr>)
   \<and> handle_command (''exit '' @ [CHR 0xB2]) (w\<lparr>environ := Map.empty\<rparr>)
       = (Raised ValueError, w\<lparr>environ := Map.empty\<rparr>)
   \<and> exit_shell ''3'' (w\<lparr>environ := [''HISTFILE'' \<mapsto> ''/tmp/h''], files := Map.empty,
                           history := [''exit 3''], initial_history_length := 0\<rparr>)
       = (Raised FileNotFoundError,
          w\<lparr>environ := [''HISTFILE'' \<mapsto> ''/tmp/h''], files := Map.empty,
            history := [''exit 3''], initial_history_length := 0\<rparr>)"
proof (intro conjI)
  show e: "exit_shell [CHR 0xB2] (w\<lparr>environ := Map.empty\<rparr>) = (Raised ValueError, w\<lparr>environ := Map.empty\<rparr>)"
    by (simp add: exit_shell_def write_to_history_file_def isdigit_superscript)
  show "handle_command (''exit '' @ [CHR 0xB2]) (w\<lparr>environ := Map.empty\<rparr>)
       = (Raised ValueError, w\<lparr>environ := Map.empty\<rparr>)"
    by (simp add: handle_command_def parse_input_exit [simplified] extract_exit py_index_def
        builtin_commands_def call_builtin_def truthy_def e)
  show "exit_shell ''3'' (w\<lparr>environ := [''HISTFILE'' \<mapsto> ''/tmp/h''], files := Map.empty,
                           history := [''exit 3''], initial_history_length := 0\<rparr>)
       = (Raised FileNotFoundError,
          w\<lparr>environ := [''HISTFILE'' \<mapsto> ''/tmp/h''], files := Map.empty,
            history := [''exit 3''], initial_history_length := 0\<rparr>)"
    by (simp add: exit_shell_def write_to_history_file_def readline_append_history_file_def Let_def)
qed

section \<open>Builtins under a redirection\<close>

lemma call_builtin_stdout_raises:
  assumes "truthy stdout_target" and "\<not> truthy stderr_target"
    and "open_file (the stdout_target) stdout_mode w = Inr w1"
    and "h arg (w1\<lparr>sys_stdout := FileStream (the stdout_target)\<rparr>) = (Raised e, w2)"
  shows "call_builtin h arg stdout_target stdout_mode stderr_target stderr_mode w = (Raised e, w2)"
  using assms by (simp add: call_builtin_def Let_def)

lemma call_builtin_stdout_returns:
  assumes "truthy stdout_target" and "\<not> truthy stderr_target"
    and "open_file (the stdout_target) stdout_mode w = Inr w1"
    and "h arg (w1\<lparr>sys_stdout := FileStream (the stdout_target)\<rparr>) = (Returned, w2)"
  shows "call_builtin h arg stdout_target stdout_mode stderr_target stderr_mode w
           = (Returned, w2\<lparr>sys_stdout := sys_stdout w\<rparr>)"
  using assms by (auto simp: call_builtin_def Let_def open_file_def split: if_splits)

lemma parse_input_history_redirect:
  "parse_input ''history -a /missing/h > out.txt'' = Inr [''history'', ''-a'', ''/missing/h'', ''>'', ''out.txt'']"
  by code_simp

lemma extract_history_redirect:
  "extract_redirections [''history'', ''-a'', ''/missing/h'', ''>'', ''out.txt'']
     = Inr ([''history'', ''-a'', ''/missing/h''], Some ''out.txt'', ''w'', None, ''w'')"
  by (simp add: extract_redirections_from is_redirection_operator_def redirection_operators_def
      apply_operator_def)

lemma split_history_args: "py_split (py_strip ''-a /missing/h'') = [''-a'', ''/missing/h'']"
  by code_simp

text \<open>
  C3. What is left of \<open>sys.stdout\<close> when a redirected builtin raises: in the example
  world, \<open>history -a /missing/h > out.txt\<close> opens \<open>out.txt\<close> and points
  \<open>sys.stdout\<close> to it; the handler's \<open>open\<close> of \<open>/missing/h\<close> raises \<open>OSError\<close>, and
  \<open>handle_command\<close> is left with \<open>sys.stdout\<close> still the file object: the assignment
  that restores it is skipped.
\<close>

theorem builtin_redirection_not_restored:
  "handle_command ''history -a /missing/h > out.txt'' example_world
     = (Raised OSError, example_world\<lparr>files := [''out.txt'' \<mapsto> []], sys_stdout := FileStream ''out.txt''\<rparr>)
   \<and> sys_stdout (snd (handle_command ''history -a /missing/h > out.txt'' example_world))
       \<noteq> sys_stdout example_world"
proof -
  have "handle_command ''history -a /missing/h > out.txt'' example_world
     = (Raised OSError, example_world\<lparr>files := [''out.txt'' \<mapsto> []], sys_stdout := FileStream ''out.txt''\<rparr>)"
    by (simp add: handle_command_def parse_input_history_redirect extract_history_redirect
        py_index_def builtin_commands_def call_builtin_def truthy_def open_file_def
        get_history_def split_history_args Let_def example_world_def)
  then show ?thesis
    by (simp add: example_world_def)
qed

end
